theory Spec2Isabelle
  imports Complex_Main "HOL-Library.Word" "HOL-Library.Char_ord" "HOL-Library.List_Lexorder"
begin

unbundle bit_operations_syntax

section \<open>Machine types\<close>

text \<open>
  Bytes are \<open>uint8_t\<close>, header fields \<open>uint16_t\<close>. \<open>size_t\<close> is the 64-bit
  unsigned type of the LP64 targets the sources are written for (the parser
  initialises a \<open>size_t\<close> loop variable from \<open>0UL\<close> literals); its arithmetic wraps
  modulo \<open>2 ^ 64\<close>.
\<close>

type_synonym u8 = "8 word"
type_synonym u16 = "16 word"
type_synonym size_t = "64 word"

section \<open>Bitmask encoding of a quantized grid (BackgroundFrameFetcher.cpp)\<close>

text \<open>
  \<^verbatim>\<open>
  bitmask.assign((grid.size() + 7) / 8, 0);  values.clear();
  for (size_t b = 0; b < grid.size(); ++b) {
      if (grid[b] > 0) {
          bitmask[b / 8] |= (1 << (7 - (b % 8)));
          values.push_back(grid[b]);
      }
  }
  \<close>
  The same loop encodes the per-tilt 2-D grid and the volumetric 3-D grid. The
  state of the loop is the pair (bitmask, values); one iteration is
  \<open>bitmask_step\<close>.
\<close>

definition bitmask_step :: "u8 list \<Rightarrow> u8 list \<times> u8 list \<Rightarrow> nat \<Rightarrow> u8 list \<times> u8 list" where
  "bitmask_step grid s b =
     (case s of (bitmask, vals) \<Rightarrow>
        if grid ! b > 0
        then (bitmask[b div 8 := (bitmask ! (b div 8)) OR push_bit (7 - b mod 8) 1],
              vals @ [grid ! b])
        else (bitmask, vals))"

definition encode_bitmask :: "u8 list \<Rightarrow> u8 list \<times> u8 list" where
  "encode_bitmask grid =
     fold (\<lambda>b s. bitmask_step grid s b) [0..<length grid]
       (replicate ((length grid + 7) div 8) 0, [])"

text \<open>The number of set bits of a byte and of a byte sequence.\<close>

definition popcount8 :: "u8 \<Rightarrow> nat" where
  "popcount8 w = length (filter (bit w) [0..<8])"

definition count_set_bits :: "u8 list \<Rightarrow> nat" where
  "count_set_bits bm = sum_list (map popcount8 bm)"


section \<open>Bounds checker (ByteReader.h)\<close>

text \<open>
  \<^verbatim>\<open>
  inline bool safe_pointer_dereference(size_t ptr_offset, size_t required_size,
                                       size_t payload_size, const char* block_type) {
      if (ptr_offset == 0) return false;
      if (ptr_offset > payload_size) { ...log...; return false; }
      if (ptr_offset + required_size > payload_size) { ...log...; return false; }
      return true;
  }
  \<close>
  \<open>block_type\<close> only selects whether a diagnostic is printed. The sum
  \<open>ptr_offset + required_size\<close> is computed in \<open>size_t\<close> and wraps.
\<close>

definition safe_pointer_dereference :: "size_t \<Rightarrow> size_t \<Rightarrow> size_t \<Rightarrow> bool" where
  "safe_pointer_dereference ptr_offset required_size payload_size =
     (if ptr_offset = 0 then False
      else if ptr_offset > payload_size then False
      else if ptr_offset + required_size > payload_size then False
      else True)"


section \<open>Single-precision arithmetic\<close>

text \<open>
  The sources compute in \<open>float\<close> (IEEE-754 binary32, round to nearest, ties to even). A
  finite \<open>float\<close> is modelled by the real number it denotes, and every arithmetic
  operation of the source is the exact operation followed by \<open>fl\<close>, the rounding to the
  nearest binary32 value: \<open>float_exponent\<close> finds the binade (at least \<open>-126\<close>, which
  makes the subnormal range round to multiples of \<open>2 powi (-149)\<close>), and the
  significand is rounded to 24 bits. Results of magnitude \<open>2 powi 128\<close> or more, where
  the hardware gives an infinity, are outside this model of the arithmetic. A literal
  such as \<open>1.1f\<close> is \<open>fl (11 / 10)\<close>. Comparisons, \<open>std::floor\<close> and \<open>std::round\<close> are exact.

  A \<open>float\<close> that is read from the bytes of a file can be any binary32 value: a number,
  an infinity or a NaN. \<open>float32\<close> is such a value; \<open>float_less\<close> is the comparison \<open><\<close>
  of the hardware, which is false whenever an operand is a NaN (\<open>a > b\<close> is
  \<open>float_less b a\<close>).
\<close>

datatype float32 = Number real | PlusInfinity | MinusInfinity | NaN

fun float_less :: "float32 \<Rightarrow> float32 \<Rightarrow> bool" where
  "float_less (Number a) (Number b) = (a < b)"
| "float_less (Number a) PlusInfinity = True"
| "float_less MinusInfinity (Number b) = True"
| "float_less MinusInfinity PlusInfinity = True"
| "float_less _ _ = False"

definition round_half_even :: "real \<Rightarrow> int" where
  "round_half_even y =
     (let f = \<lfloor>y\<rfloor>; d = y - of_int f in
      if d < 1/2 then f else if d > 1/2 then f + 1 else if even f then f else f + 1)"

definition float_exponent :: "real \<Rightarrow> int" where
  "float_exponent x =
     (case List.find (\<lambda>e. \<bar>x\<bar> < 2 powi (e + 1)) [-126..127] of
        Some e \<Rightarrow> e | None \<Rightarrow> 128)"

definition fl :: "real \<Rightarrow> real" where
  "fl x = (let q = 2 powi (float_exponent x - 23) in q * of_int (round_half_even (x / q)))"

text \<open>\<open>std::round\<close>: to the nearest integer, halfway cases away from zero.\<close>

definition c_round :: "real \<Rightarrow> int" where
  "c_round y = (if 0 \<le> y then \<lfloor>y + 1/2\<rfloor> else \<lceil>y - 1/2\<rceil>)"

section \<open>Quantization (RadarFrame.cpp)\<close>

record QuantizationParams =
  value_min :: real
  value_max :: real
  range_min :: real
  range_max :: real

definition get_quant_params :: "string \<Rightarrow> QuantizationParams" where
  "get_quant_params product_type =
     (if product_type = ''velocity''
      then \<lparr>value_min = -100, value_max = 100, range_min = 0, range_max = 230000\<rparr>
      else if product_type = ''spectrum_width''
      then \<lparr>value_min = 0, value_max = 64, range_min = 0, range_max = 230000\<rparr>
      else if product_type = ''differential_reflectivity''
      then \<lparr>value_min = -8, value_max = 8, range_min = 0, range_max = 230000\<rparr>
      else if product_type = ''differential_phase''
      then \<lparr>value_min = 0, value_max = 360, range_min = 0, range_max = 230000\<rparr>
      else if product_type = ''cross_correlation_ratio'' \<or> product_type = ''correlation_coefficient''
      then \<lparr>value_min = 0, value_max = fl (11 / 10), range_min = 0, range_max = 230000\<rparr>
      else \<lparr>value_min = -32, value_max = 189 / 2, range_min = 0, range_max = 230000\<rparr>)"

text \<open>
  \<^verbatim>\<open>
  uint8_t quantize_value(float value, float min_val, float max_val) {
      float range = max_val - min_val;
      float normalized = (value - min_val) / range;
      normalized = (normalized < 0.0f) ? 0.0f : (normalized > 1.0f) ? 1.0f : normalized;
      return static_cast<uint8_t>(std::round(normalized * 255.0f));
  }
  \<close>
  With \<open>range = 0\<close> the quotient is an infinity, which the clamp turns into 0 or 1, or
  (for \<open>0 / 0\<close>) a NaN, which passes the clamp and whose conversion to \<open>uint8_t\<close> is
  undefined: the result \<open>None\<close>.
\<close>

definition quantize_value :: "real \<Rightarrow> real \<Rightarrow> real \<Rightarrow> u8 option" where
  "quantize_value val min_val max_val =
     (let range = fl (max_val - min_val) in
      if range = 0
      then (if fl (val - min_val) > 0 then Some 255
            else if fl (val - min_val) < 0 then Some 0 else None)
      else
        let normalized = fl (fl (val - min_val) / range);
            normalized = (if normalized < 0 then 0 else if normalized > 1 then 1 else normalized)
        in Some (word_of_int (c_round (fl (normalized * 255)))))"

text \<open>
  The inverse map, as the unit test of the quantization writes it
  (tests/unit/test_quantization.cpp):
  \<^verbatim>\<open>
  static float dequantize_value(uint8_t quant, float min_val, float max_val) {
      float range = max_val - min_val;
      return min_val + (static_cast<float>(quant) / 255.0f) * range;
  }
  \<close>
\<close>

definition dequantize_value :: "u8 \<Rightarrow> real \<Rightarrow> real \<Rightarrow> real" where
  "dequantize_value quant min_val max_val =
     (let range = fl (max_val - min_val)
      in fl (min_val + fl (fl (real (unat quant) / 255) * range)))"


section \<open>Segment reassembler (MessageSegmenter.h)\<close>

text \<open>
  The 16-byte message header; the fields are the values \<open>read_be\<close> decodes from the
  big-endian bytes.
\<close>

record MessageHeader =
  msg_size :: u16
  rda_redundancy :: u8
  msg_type :: u8
  sequence_num :: u16
  julian_date :: u16
  milliseconds :: "32 word"
  num_segments :: u16
  segment_num :: u16

record SegmentedMessage =
  sm_sequence_num :: u16
  sm_type :: u8
  sm_data :: "u8 list"

record MessageInfo =
  mi_type :: u8
  segments :: "u8 list list"
  segments_received :: u16
  total_data_size :: nat

text \<open>
  \<open>m_pending_messages\<close> is an \<open>unordered_map<uint16_t, MessageInfo>\<close>; \<open>operator[]\<close>
  inserts a value-initialised \<open>MessageInfo\<close> for a key that is not present.
\<close>

type_synonym pending_messages = "u16 \<rightharpoonup> MessageInfo"

definition MessageInfo_default :: MessageInfo where
  "MessageInfo_default = \<lparr>mi_type = 0, segments = [], segments_received = 0, total_data_size = 0\<rparr>"

text \<open>
  \<^verbatim>\<open>
  bool add_segment(const MessageHeader& header, const uint8_t* segment_data,
                   size_t segment_size, SegmentedMessage& out_msg) {
      uint16_t num_segments = read_be<uint16_t>(&header.num_segments);
      uint16_t segment_num  = read_be<uint16_t>(&header.segment_num);
      uint16_t seq_num      = read_be<uint16_t>(&header.sequence_num);
      if (num_segments <= 1) { out_msg = {seq_num, header.type, segment}; return true; }
      auto& info = m_pending_messages[seq_num];
      if (num_segments > 2000) return false;
      if (info.segments.empty()) {
          info.segments.resize(num_segments); info.type = header.type;
          info.segments_received = 0; info.total_data_size = 0;
      }
      if (segment_num < 1 || segment_num > num_segments) return false;
      if (info.segments[segment_num - 1].empty()) {
          info.segments[segment_num - 1].assign(segment_data, segment_data + segment_size);
          info.segments_received++; info.total_data_size += segment_size;
      }
      if (info.segments_received == num_segments) {
          out_msg = {seq_num, info.type, concatenation of info.segments};
          m_pending_messages.erase(seq_num);
          return true;
      }
      return false;
  }
  \<close>
  The model returns \<open>Some msg\<close> for \<open>true\<close> with \<open>out_msg = msg\<close> (every caller passes a
  freshly constructed \<open>out_msg\<close>) and \<open>None\<close> for \<open>false\<close>, together with the new
  pending map. \<open>info.segments[segment_num - 1]\<close> is an unchecked vector access: when a
  later segment of a sequence number announces more segments than the first one did,
  the index can lie beyond the vector, which is undefined behaviour in the source and
  the error \<open>VectorIndexOutOfRange\<close> in the model.
\<close>

datatype seg_error = VectorIndexOutOfRange

definition add_segment ::
  "MessageHeader \<Rightarrow> u8 list \<Rightarrow> pending_messages
     \<Rightarrow> seg_error + (SegmentedMessage option \<times> pending_messages)" where
  "add_segment header segment_data m =
     (let num_segs = num_segments header;
          seg_num = segment_num header;
          seq_num = sequence_num header
      in
      if num_segs \<le> 1
      then Inr (Some \<lparr>sm_sequence_num = seq_num, sm_type = msg_type header, sm_data = segment_data\<rparr>, m)
      else
        let info0 = (case m seq_num of None \<Rightarrow> MessageInfo_default | Some i \<Rightarrow> i) in
        if num_segs > 2000 then Inr (None, m(seq_num \<mapsto> info0))
        else
          let info1 = (if segments info0 = []
                       then info0\<lparr>segments := replicate (unat num_segs) [],
                                  mi_type := msg_type header,
                                  segments_received := 0,
                                  total_data_size := 0\<rparr>
                       else info0) in
          if seg_num < 1 \<or> seg_num > num_segs then Inr (None, m(seq_num \<mapsto> info1))
          else
            let idx = unat seg_num - 1 in
            if idx \<ge> length (segments info1) then Inl VectorIndexOutOfRange
            else
              let info2 = (if segments info1 ! idx = []
                           then info1\<lparr>segments := (segments info1)[idx := segment_data],
                                      segments_received := segments_received info1 + 1,
                                      total_data_size := total_data_size info1 + length segment_data\<rparr>
                           else info1) in
              if segments_received info2 = num_segs
              then Inr (Some \<lparr>sm_sequence_num = seq_num, sm_type = mi_type info2,
                               sm_data = concat (segments info2)\<rparr>,
                        m(seq_num := None))
              else Inr (None, m(seq_num \<mapsto> info2)))"

text \<open>A sequence of calls on one segmenter, as the parser's message loop makes them.\<close>

fun add_segments ::
  "(MessageHeader \<times> u8 list) list \<Rightarrow> pending_messages
     \<Rightarrow> seg_error + (SegmentedMessage option list \<times> pending_messages)" where
  "add_segments [] m = Inr ([], m)"
| "add_segments ((h, d) # cs) m =
     (case add_segment h d m of
        Inl e \<Rightarrow> Inl e
      | Inr (r, m') \<Rightarrow>
          (case add_segments cs m' of
             Inl e \<Rightarrow> Inl e
           | Inr (rs, m'') \<Rightarrow> Inr (r # rs, m'')))"

text \<open>A header with the given type, sequence number, segment count and segment index.\<close>

definition seg_header :: "u8 \<Rightarrow> u16 \<Rightarrow> u16 \<Rightarrow> u16 \<Rightarrow> MessageHeader" where
  "seg_header ty seq n k =
     \<lparr>msg_size = 8, rda_redundancy = 0, msg_type = ty, sequence_num = seq, julian_date = 20000,
      milliseconds = 0, num_segments = n, segment_num = k\<rparr>"



section \<open>Discovery pass of the scheduler (BackgroundFrameFetcher.cpp)\<close>

text \<open>
  \<open>fetch_frame_for_station\<close> is one discovery pass for one station. It reads the
  station's cursor, lists the bucket after it, walks the listed keys and writes the
  cursor back. The model keeps the part of the fetcher's state the pass touches: the
  per-station cursor (a station without an entry has the empty key, as
  \<open>station_stats_[station]\<close> default-constructs it) and the discovery queue. The pass is
  modelled first as the function run by one thread, then as a task of the discovery
  thread pool, where passes interleave.
\<close>

record DiscoveryItem =
  di_station :: string
  di_bucket :: string
  di_key :: string
  di_timestamp :: string

record DiscoveryBatch =
  db_station :: string
  db_items :: "DiscoveryItem list"

record fetcher_state =
  last_processed_key :: "string \<Rightarrow> string"
  discovery_queue :: "DiscoveryBatch list"

text \<open>
  Everything a pass reads from outside the function: whether the S3 client exists, the
  date prefix formatted from the clock, the keys in the bucket at listing time (\<open>None\<close>:
  the listing request fails), the configuration, the iteration at which the stop flag
  is first seen set (\<open>None\<close>: never), and the on-disk test \<open>has_timestamp_product\<close>
  (\<open>None\<close>: \<open>fs::exists\<close> throws, which the pass catches as \<open>std::exception\<close>).
\<close>

datatype list_outcome = ListFailed | ListOk "string list"

datatype scan_exn = FilesystemError

record scan_env =
  s3_client_available :: bool
  date_prefix :: string
  bucket_keys :: "string list option"
  max_frames_per_station :: int
  catchup_enabled :: bool
  products :: "string list"
  stop_after :: "nat option"
  has_timestamp_product :: "string \<Rightarrow> string \<Rightarrow> string \<Rightarrow> bool option"

definition NEXRAD_BUCKET :: string where
  "NEXRAD_BUCKET = ''unidata-nexrad-level2''"

text \<open>\<open>std::string\<close> helpers: prefix test and \<open>find(sub) != npos\<close>.\<close>

definition starts_with :: "string \<Rightarrow> string \<Rightarrow> bool" where
  "starts_with s p = (take (length p) s = p)"

fun contains_str :: "string \<Rightarrow> string \<Rightarrow> bool" where
  "contains_str [] p = (p = [])"
| "contains_str (c # cs) p = (starts_with (c # cs) p \<or> contains_str cs p)"

text \<open>
  The object store is an external service. Its listing contract (the spec's external
  interfaces: keys under a prefix, in the store's sorted order, after the
  \<open>start_after\<close> cursor when one is given; one page of at most 1000 keys, as the pass
  does not paginate) is written out here. \<open><\<close> on strings is the lexicographic order on
  bytes, which is also what \<open>std::string::operator<\<close> computes.
\<close>

definition ListObjectsV2 :: "string list option \<Rightarrow> string \<Rightarrow> string \<Rightarrow> list_outcome" where
  "ListObjectsV2 keys prefix start_after =
     (case keys of
        None \<Rightarrow> ListFailed
      | Some ks \<Rightarrow>
          ListOk (take 1000 (sort (remdups
            (filter (\<lambda>k. starts_with k prefix \<and> (start_after = [] \<or> start_after < k)) ks)))))"

text \<open>
  \<^verbatim>\<open>
  std::string filename = key.substr(key.find_last_of('/') + 1);
  std::string timestamp = filename.substr(4, 8) + "_" + filename.substr(filename.find('_') + 1, 6);
  \<close>
  (\<open>npos + 1\<close> wraps to 0 when the character is absent).
\<close>

definition filename_of :: "string \<Rightarrow> string" where
  "filename_of key = rev (takeWhile (\<lambda>c. c \<noteq> CHR ''/'') (rev key))"

definition timestamp_of :: "string \<Rightarrow> string" where
  "timestamp_of filename =
     take 8 (drop 4 filename) @ ''_'' @
     take 6 (drop (if CHR ''_'' \<in> set filename
                   then length (takeWhile (\<lambda>c. c \<noteq> CHR ''_'') filename) + 1 else 0) filename)"

text \<open>
  \<^verbatim>\<open>
  if (last_key.empty()) {
      if (catchup) {
          size_t count = std::min(objects.size(), static_cast<size_t>(max_frames));
          for (size_t i = objects.size() - count; i < objects.size(); ++i) target.push_back(objects[i]);
      } else target.push_back(objects.back());
  } else target = objects;
  \<close>
  A negative \<open>max_frames\<close> converts to a \<open>size_t\<close> above every vector size.
\<close>

definition target_objects_of :: "string \<Rightarrow> bool \<Rightarrow> int \<Rightarrow> string list \<Rightarrow> string list" where
  "target_objects_of last_key catchup max_frames objects =
     (if last_key = []
      then (if catchup
            then (let count = (if max_frames < 0 then length objects
                               else min (length objects) (nat max_frames))
                  in drop (length objects - count) objects)
            else [last objects])
      else objects)"

text \<open>The variables of the loop over the target objects.\<close>

record scan_loop =
  sl_batch :: "DiscoveryItem list"
  sl_queue :: "DiscoveryBatch list"
  sl_new_last_key :: string

text \<open>
  \<^verbatim>\<open>
  for (const auto& obj : target_objects) {
      if (should_stop_.load()) break;
      std::string key = obj.GetKey();
      ... filename ...
      if (filename.find("_MDM") != std::string::npos || filename.size() < 20) continue;
      ... timestamp ...
      bool all_exist = true;
      for (const auto& prod : current_config.products)
          if (!storage_->has_timestamp_product(station, prod, timestamp)) { all_exist = false; break; }
      if (!all_exist) {
          batch.items.push_back(item);
          if (batch.items.size() >= 5) { discovery_queue_.push(std::move(batch)); batch = DiscoveryBatch(); ... }
      }
      new_last_key = key;
  }
  if (!batch.items.empty()) discovery_queue_.push(std::move(batch));
  station_stats_[station].last_processed_key = new_last_key;
  \<close>
  An exception leaves the \<open>try\<close> block before the cursor is written; batches already
  pushed stay in the queue.
\<close>

fun all_products_exist ::
  "scan_env \<Rightarrow> string \<Rightarrow> string \<Rightarrow> string list \<Rightarrow> scan_exn + bool" where
  "all_products_exist env station timestamp [] = Inr True"
| "all_products_exist env station timestamp (product # prods) =
     (case has_timestamp_product env station product timestamp of
        None \<Rightarrow> Inl FilesystemError
      | Some False \<Rightarrow> Inr False
      | Some True \<Rightarrow> all_products_exist env station timestamp prods)"

definition scan_object ::
  "scan_env \<Rightarrow> string \<Rightarrow> scan_loop \<Rightarrow> string \<Rightarrow> scan_exn + scan_loop" where
  "scan_object env station s key =
     (let filename = filename_of key in
      if contains_str filename ''_MDM'' \<or> length filename < 20 then Inr s
      else
        let timestamp = timestamp_of filename in
        case all_products_exist env station timestamp (products env) of
          Inl e \<Rightarrow> Inl e
        | Inr all_exist \<Rightarrow>
            let s1 = (if \<not> all_exist
                      then (let batch = sl_batch s @
                                  [\<lparr>di_station = station, di_bucket = NEXRAD_BUCKET,
                                    di_key = key, di_timestamp = timestamp\<rparr>]
                            in if length batch \<ge> 5
                               then s\<lparr>sl_batch := [],
                                      sl_queue := sl_queue s @
                                        [\<lparr>db_station = station, db_items = batch\<rparr>]\<rparr>
                               else s\<lparr>sl_batch := batch\<rparr>)
                      else s)
            in Inr (s1\<lparr>sl_new_last_key := key\<rparr>))"

fun scan_objects ::
  "scan_env \<Rightarrow> string \<Rightarrow> string list \<Rightarrow> scan_loop
     \<Rightarrow> (scan_exn \<times> DiscoveryBatch list) + scan_loop" where
  "scan_objects env station [] s = Inr s"
| "scan_objects env station (key # keys) s =
     (case scan_object env station s key of
        Inl e \<Rightarrow> Inl (e, sl_queue s)
      | Inr s' \<Rightarrow> scan_objects env station keys s')"

text \<open>
  \<^verbatim>\<open>
  std::string last_key;
  { std::lock_guard<std::mutex> lock(stats_mutex_);
    last_key = station_stats_[station].last_processed_key; }
  ... list, sort, select the targets, walk them (above) ...
  { std::lock_guard<std::mutex> lock(stats_mutex_);
    station_stats_[station].last_processed_key = new_last_key; ... }
  \<close>
  The cursor is read in one critical section and written in another. \<open>scan_body\<close> is what
  the pass does in between with the key it read: it returns the key to write (\<open>None\<close>
  when the pass returns or throws before the write) and the discovery queue with the
  batches it pushed.
\<close>

definition scan_body ::
  "scan_env \<Rightarrow> string \<Rightarrow> string \<Rightarrow> DiscoveryBatch list \<Rightarrow> string option \<times> DiscoveryBatch list" where
  "scan_body env station last_key queue0 =
     (case ListObjectsV2 (bucket_keys env) (date_prefix env) last_key of
        ListFailed \<Rightarrow> (None, queue0)
      | ListOk contents \<Rightarrow>
          if contents = [] then (None, queue0)
          else
            let objects = sort contents;
                target_objects = target_objects_of last_key (catchup_enabled env)
                                   (max_frames_per_station env) objects;
                visited = (case stop_after env of None \<Rightarrow> target_objects
                           | Some n \<Rightarrow> take n target_objects)
            in case scan_objects env station visited
                      \<lparr>sl_batch = [], sl_queue = queue0, sl_new_last_key = last_key\<rparr> of
                 Inl (e, queue) \<Rightarrow> (None, queue)
               | Inr s \<Rightarrow>
                   (Some (sl_new_last_key s),
                    if sl_batch s \<noteq> []
                    then sl_queue s @ [\<lparr>db_station = station, db_items = sl_batch s\<rparr>]
                    else sl_queue s))"

definition write_cursor :: "string \<Rightarrow> string \<Rightarrow> fetcher_state \<Rightarrow> fetcher_state" where
  "write_cursor station new_last_key st =
     st\<lparr>last_processed_key := (last_processed_key st)(station := new_last_key)\<rparr>"

text \<open>
  \<open>fetch_frame_for_station\<close> run by one thread while no other thread touches the cursor
  or the queue.
\<close>

definition fetch_frame_for_station :: "scan_env \<Rightarrow> string \<Rightarrow> fetcher_state \<Rightarrow> fetcher_state" where
  "fetch_frame_for_station env station st =
     (if \<not> s3_client_available env then st
      else
        let last_key = last_processed_key st station in
        case scan_body env station last_key (discovery_queue st) of
          (None, queue) \<Rightarrow> st\<lparr>discovery_queue := queue\<rparr>
        | (Some new_last_key, queue) \<Rightarrow>
            write_cursor station new_last_key (st\<lparr>discovery_queue := queue\<rparr>))"

text \<open>
  Passes that run one after the other, each for some station in some environment: the
  runs of the program in which no two passes overlap.
\<close>

definition sequential_passes :: "(string \<times> scan_env) list \<Rightarrow> fetcher_state \<Rightarrow> fetcher_state" where
  "sequential_passes passes st =
     fold (\<lambda>(station, env) st. fetch_frame_for_station env station st) passes st"

text \<open>
  The passes are tasks of the discovery thread pool. The discovery loop enqueues one
  task per monitored station in every cycle, unless the station is in \<open>active_scans_\<close>;
  a task enters \<open>active_scans_\<close> only when a worker starts it (the \<open>ScanGuard\<close> at the top of
  \<open>fetch_frame_for_station\<close>) and leaves it when the function returns:
  \<^verbatim>\<open>
  for (const auto& station : stations) {
      if (should_stop_.load()) break;
      // Only enqueue if not already scanning
      { std::lock_guard<std::mutex> lock(active_scans_mutex_);
        if (active_scans_.count(station)) continue; }
      disc_pool->enqueue([this, station]() { this->fetch_frame_for_station(station); });
  }

  ScanGuard(...) { std::lock_guard<std::mutex> lock(mutex_); active_scans_.insert(station_); }
  ~ScanGuard()   { std::lock_guard<std::mutex> lock(mutex_); active_scans_.erase(station_); }

  void ThreadPool::worker_loop() { ... task = std::move(task_queue_.front()); task_queue_.pop(); ... task(); ... }
  \<close>
  The scheduler state is the fetcher state, \<open>active_scans_\<close>, the task queue of the pool
  and, for every worker, the task it runs with the point that task has reached. An event
  is one atomic step of one thread; between the events of a task any other thread may
  run. The listing and the walk over the listed keys of one task are taken as one step
  (they touch the cursor of no station; their pushes to the discovery queue are therefore
  not interleaved with the pushes of other tasks).
\<close>

datatype scan_phase = Started | HaveKey string | Scanned "string option" | Returning

record scan_task =
  tk_station :: string
  tk_phase :: scan_phase

record scheduler =
  sc_fetcher :: fetcher_state
  sc_active_scans :: "string list"
  sc_task_queue :: "string list"
  sc_pool_size :: nat
  sc_workers :: "nat \<Rightarrow> scan_task option"

text \<open>
  The events: the discovery loop reaches a station (\<open>Enqueue\<close>); worker \<open>w\<close> takes the
  front task and constructs its \<open>ScanGuard\<close>, the flag telling whether the S3 client
  exists (\<open>TaskStart\<close>); the task reads the cursor (\<open>ReadCursor\<close>); it lists and walks
  the keys in the environment of that moment (\<open>ListAndScan\<close>); it writes the cursor, or
  has left the \<open>try\<close> block without writing (\<open>WriteCursor\<close>); the function returns and
  the guard is destroyed (\<open>TaskEnd\<close>). \<open>None\<close>: the event cannot happen in that state.
\<close>

datatype event =
    Enqueue string
  | TaskStart nat bool
  | ReadCursor nat
  | ListAndScan nat scan_env
  | WriteCursor nat
  | TaskEnd nat

definition set_phase :: "nat \<Rightarrow> scan_task \<Rightarrow> scan_phase \<Rightarrow> scheduler \<Rightarrow> scheduler" where
  "set_phase w task phase s = s\<lparr>sc_workers := (sc_workers s)(w := Some (task\<lparr>tk_phase := phase\<rparr>))\<rparr>"

definition scheduler_step :: "event \<Rightarrow> scheduler \<Rightarrow> scheduler option" where
  "scheduler_step ev s =
     (case ev of
        Enqueue station \<Rightarrow>
          Some (if station \<in> set (sc_active_scans s) then s
                else s\<lparr>sc_task_queue := sc_task_queue s @ [station]\<rparr>)
      | TaskStart w available \<Rightarrow>
          (case (sc_workers s w, sc_task_queue s) of
             (None, station # rest) \<Rightarrow>
               if w < sc_pool_size s
               then Some (s\<lparr>sc_task_queue := rest,
                            sc_active_scans := List.insert station (sc_active_scans s),
                            sc_workers := (sc_workers s)(w := Some
                              \<lparr>tk_station = station,
                               tk_phase = (if available then Started else Returning)\<rparr>)\<rparr>)
               else None
           | _ \<Rightarrow> None)
      | ReadCursor w \<Rightarrow>
          (case sc_workers s w of
             None \<Rightarrow> None
           | Some task \<Rightarrow>
               (case tk_phase task of
                  Started \<Rightarrow>
                    Some (set_phase w task
                            (HaveKey (last_processed_key (sc_fetcher s) (tk_station task))) s)
                | _ \<Rightarrow> None))
      | ListAndScan w env \<Rightarrow>
          (case sc_workers s w of
             None \<Rightarrow> None
           | Some task \<Rightarrow>
               (case tk_phase task of
                  HaveKey last_key \<Rightarrow>
                    (case scan_body env (tk_station task) last_key
                            (discovery_queue (sc_fetcher s)) of
                       (new_last_key, queue) \<Rightarrow>
                         Some (set_phase w task (Scanned new_last_key)
                                 (s\<lparr>sc_fetcher := (sc_fetcher s)\<lparr>discovery_queue := queue\<rparr>\<rparr>)))
                | _ \<Rightarrow> None))
      | WriteCursor w \<Rightarrow>
          (case sc_workers s w of
             None \<Rightarrow> None
           | Some task \<Rightarrow>
               (case tk_phase task of
                  Scanned None \<Rightarrow> Some (set_phase w task Returning s)
                | Scanned (Some new_last_key) \<Rightarrow>
                    Some (set_phase w task Returning
                            (s\<lparr>sc_fetcher := write_cursor (tk_station task) new_last_key
                                                (sc_fetcher s)\<rparr>))
                | _ \<Rightarrow> None))
      | TaskEnd w \<Rightarrow>
          (case sc_workers s w of
             None \<Rightarrow> None
           | Some task \<Rightarrow>
               (case tk_phase task of
                  Returning \<Rightarrow>
                    Some (s\<lparr>sc_active_scans := removeAll (tk_station task) (sc_active_scans s),
                            sc_workers := (sc_workers s)(w := None)\<rparr>)
                | _ \<Rightarrow> None)))"

fun scheduler_run :: "event list \<Rightarrow> scheduler \<Rightarrow> scheduler option" where
  "scheduler_run [] s = Some s"
| "scheduler_run (ev # evs) s =
     (case scheduler_step ev s of None \<Rightarrow> None | Some s' \<Rightarrow> scheduler_run evs s')"

text \<open>The events of one pass that runs from start to end on worker \<open>w\<close>.\<close>

definition pass_events :: "nat \<Rightarrow> scan_env \<Rightarrow> event list" where
  "pass_events w env =
     (if s3_client_available env
      then [TaskStart w True, ReadCursor w, ListAndScan w env, WriteCursor w, TaskEnd w]
      else [TaskStart w False, TaskEnd w])"

text \<open>A small environment and four archive keys, for the cursor-advance scenario.\<close>

definition test_env :: "string list \<Rightarrow> scan_env" where
  "test_env ks = \<lparr>s3_client_available = True, date_prefix = ''2026/02/15/KTLX/'',
     bucket_keys = Some ks, max_frames_per_station = 30, catchup_enabled = True,
     products = [''reflectivity''], stop_after = None, has_timestamp_product = (\<lambda>_ _ _. Some False)\<rparr>"

definition keyA :: string where "keyA = ''2026/02/15/KTLX/KTLX20260215_150000_V06''"
definition keyB :: string where "keyB = ''2026/02/15/KTLX/KTLX20260215_150500_V06''"
definition keyC :: string where "keyC = ''2026/02/15/KTLX/KTLX20260215_151000_V06''"
definition keyD :: string where "keyD = ''2026/02/15/KTLX/KTLX20260215_151500_V06''"

definition st0 :: fetcher_state where "st0 = \<lparr>last_processed_key = (\<lambda>_. []), discovery_queue = []\<rparr>"

text \<open>
  The scheduler at start-up (ten discovery workers, the default
  \<open>discovery_parallelism\<close>), and a run in which two passes of station KTLX overlap. The
  discovery loop enqueues KTLX in one cycle and, the task not yet started, again in the
  next. Two workers start the two tasks and both read the empty cursor. Worker 1 lists
  the bucket while it holds key A only; key B arrives and worker 0 lists A and B.
  Worker 0 writes its cursor; then worker 1 writes its own.
\<close>

definition scheduler_init :: scheduler where
  "scheduler_init = \<lparr>sc_fetcher = st0, sc_active_scans = [], sc_task_queue = [],
     sc_pool_size = 10, sc_workers = (\<lambda>_. None)\<rparr>"

definition overlap_until_first_write :: "event list" where
  "overlap_until_first_write =
     [Enqueue ''KTLX'', Enqueue ''KTLX'', TaskStart 0 True, TaskStart 1 True,
      ReadCursor 0, ReadCursor 1,
      ListAndScan 1 (test_env [keyA]), ListAndScan 0 (test_env [keyA, keyB]),
      WriteCursor 0]"

definition overlap_schedule :: "event list" where
  "overlap_schedule = overlap_until_first_write @ [WriteCursor 1, TaskEnd 0, TaskEnd 1]"

definition cursor_of :: "string \<Rightarrow> scheduler \<Rightarrow> string" where
  "cursor_of station s = last_processed_key (sc_fetcher s) station"



section \<open>Decompression (DecompressionUtils.cpp)\<close>

text \<open>
  The bzip2 library is external. Both decompression loops of the source have the shape
  \<^verbatim>\<open>
  while (true) {
      ret = BZ2_bzDecompress(&stream);
      if (ret == BZ_STREAM_END) { decompressed.resize(... total_out ...); ... return true / break; }
      if (ret != BZ_OK) { ... return false / break; }
      if (stream.avail_out == 0) { ... grow the output buffer by one half ... }
  }
  \<close>
  A \<open>bz_codec\<close> stands for what the library makes of one complete input buffer:
  \<open>StreamEnd out\<close> when the calls reach \<open>BZ_STREAM_END\<close> with output \<open>out\<close> (the 12x
  pre-allocation and the 1.5x growth only size the buffer), \<open>DataError\<close> when a call
  reports an error, and \<open>InputExhausted\<close> when the input ends inside the stream: the
  library then returns \<open>BZ_OK\<close> without consuming or producing anything, on every call,
  and the loop never ends. Two properties of the library are fixed here: a first byte
  that differs from the magic \<open>BZh\<close> is \<open>BZ_DATA_ERROR_MAGIC\<close>, and an input that ends
  inside the magic is exhausted input.
\<close>

datatype bz_outcome = StreamEnd "u8 list" | DataError | InputExhausted

type_synonym bz_codec = "u8 list \<Rightarrow> bz_outcome"

definition VOLUME_HEADER_SIZE :: nat where "VOLUME_HEADER_SIZE = 24"
definition CONTROL_WORD_SIZE :: nat where "CONTROL_WORD_SIZE = 4"

definition BZ_MAGIC :: "u8 list" where "BZ_MAGIC = [0x42, 0x5A, 0x68]"

definition BZ2_bzDecompress_stream :: "bz_codec \<Rightarrow> u8 list \<Rightarrow> bz_outcome" where
  "BZ2_bzDecompress_stream codec input =
     (if length input < 3 \<and> input = take (length input) BZ_MAGIC then InputExhausted
      else if take 3 input \<noteq> BZ_MAGIC then DataError
      else codec input)"

text \<open>
  The result of a decompression function: it does not return (\<open>Hangs\<close>), returns false
  (\<open>Failure\<close>), or returns true with the out-parameter \<open>decompressed\<close> (\<open>Success\<close>). The
  out-parameter is only read by the callers when the function returned true.
\<close>

datatype decompress_result = Hangs | Failure | Success "u8 list"

definition decompress_bz2 :: "bz_codec \<Rightarrow> u8 list \<Rightarrow> decompress_result" where
  "decompress_bz2 codec compressed =
     (if compressed = [] then Failure
      else case BZ2_bzDecompress_stream codec compressed of
             StreamEnd out \<Rightarrow> Success out
           | DataError \<Rightarrow> Failure
           | InputExhausted \<Rightarrow> Hangs)"

text \<open>
  \<^verbatim>\<open>
  while (offset + CONTROL_WORD_SIZE < data.size()) {
      int32_t control_word = (data[offset] << 24) | (data[offset+1] << 16)
                           | (data[offset+2] << 8) | data[offset+3];
      size_t block_size = std::abs(control_word);
      offset += CONTROL_WORD_SIZE;
      if (block_size == 0) break;
      if (offset + block_size > data.size()) block_size = data.size() - offset;
      ... bzip2-decompress data[offset, offset + block_size) and append the output;
          on BZ_STREAM_END stream_count++, on an error break ...
      offset += block_size;
  }
  return stream_count > 0;
  \<close>
\<close>

definition control_word_at :: "u8 list \<Rightarrow> nat \<Rightarrow> 32 word" where
  "control_word_at data offset =
     push_bit 24 (ucast (data ! offset)) OR push_bit 16 (ucast (data ! (offset + 1)))
       OR push_bit 8 (ucast (data ! (offset + 2))) OR ucast (data ! (offset + 3))"

text \<open>
  The record loop returns the output and the stream count, or \<open>None\<close> when the inner
  loop never ends.
\<close>

function decompress_ldm_records ::
  "bz_codec \<Rightarrow> u8 list \<Rightarrow> nat \<Rightarrow> u8 list \<Rightarrow> nat \<Rightarrow> (u8 list \<times> nat) option" where
  "decompress_ldm_records codec data offset decompressed stream_count =
     (if offset + CONTROL_WORD_SIZE < length data
      then
        let control_word = control_word_at data offset;
            block_size0 = nat \<bar>sint control_word\<bar>;
            offset1 = offset + CONTROL_WORD_SIZE
        in
        if block_size0 = 0 then Some (decompressed, stream_count)
        else
          let block_size = (if offset1 + block_size0 > length data
                            then length data - offset1 else block_size0)
          in
          case BZ2_bzDecompress_stream codec (take block_size (drop offset1 data)) of
            DataError \<Rightarrow> Some (decompressed, stream_count)
          | InputExhausted \<Rightarrow> None
          | StreamEnd out \<Rightarrow>
              decompress_ldm_records codec data (offset1 + block_size)
                (decompressed @ out) (stream_count + 1)
      else Some (decompressed, stream_count))"
  by pat_completeness auto
termination
  by (relation "measure (\<lambda>(codec, data, offset, decompressed, stream_count). length data - offset)")
     (auto simp: CONTROL_WORD_SIZE_def)

definition decompress_ldm :: "bz_codec \<Rightarrow> u8 list \<Rightarrow> decompress_result" where
  "decompress_ldm codec data =
     (if length data < VOLUME_HEADER_SIZE then Failure
      else
        case decompress_ldm_records codec data VOLUME_HEADER_SIZE
               (take VOLUME_HEADER_SIZE data) 0 of
          None \<Rightarrow> Hangs
        | Some (decompressed, stream_count) \<Rightarrow>
            if stream_count > 0 then Success decompressed else Failure)"

text \<open>
  \<^verbatim>\<open>
  bool auto_decompress(const std::vector<uint8_t>& data, std::vector<uint8_t>& decompressed) {
      if (data.empty()) { decompressed.clear(); return false; }
      if (data.size() > 2 && data[0] == 'B' && data[1] == 'Z') return decompress_bz2(data, decompressed);
      if (data.size() >= VOLUME_HEADER_SIZE + CONTROL_WORD_SIZE) {
          if (!decompress_ldm(data, decompressed)) return decompress_bz2(data, decompressed);
          return true;
      }
      decompressed = data;   // Data might already be uncompressed - copy it
      return true;
  }
  \<close>
\<close>

definition auto_decompress :: "bz_codec \<Rightarrow> u8 list \<Rightarrow> decompress_result" where
  "auto_decompress codec data =
     (if data = [] then Failure
      else if length data > 2 \<and> data ! 0 = 0x42 \<and> data ! 1 = 0x5A
      then decompress_bz2 codec data
      else if length data \<ge> VOLUME_HEADER_SIZE + CONTROL_WORD_SIZE
      then (case decompress_ldm codec data of
              Failure \<Rightarrow> decompress_bz2 codec data
            | Success decompressed \<Rightarrow> Success decompressed
            | Hangs \<Rightarrow> Hangs)
      else Success data)"

text \<open>
  An uncompressed Archive II stream: the 24-byte volume header (file name
  \<open>AR2V0006.001\<close>, Julian date 20863, 58964000 ms, station KTLX), the 12 zero bytes that
  precede a message in a metadata record, and the first four bytes of a message header.
\<close>

definition bytes_of :: "string \<Rightarrow> u8 list" where
  "bytes_of s = map (\<lambda>c. of_nat (of_char c)) s"

definition uncompressed_archive :: "u8 list" where
  "uncompressed_archive =
     bytes_of ''AR2V0006.001'' @ [0, 0, 0x51, 0x7F, 0x03, 0x83, 0xB9, 0xA0] @ bytes_of ''KTLX''
       @ [0, 0, 0, 0, 0, 0, 0, 0, 0, 0, 0, 0, 0, 0x08, 0, 0x1F]"


section \<open>Projection of bins onto the grids (BackgroundFrameFetcher.cpp)\<close>

text \<open>
  \<open>static_cast<int>\<close> of a \<open>float\<close> is defined only when the truncated value fits an
  \<open>int\<close>; \<open>%\<close> on \<open>int\<close> truncates towards zero.
\<close>

definition float_to_int :: "real \<Rightarrow> int option" where
  "float_to_int y = (if - (2 ^ 31) \<le> y \<and> y < 2 ^ 31 then Some \<lfloor>y\<rfloor> else None)"

definition c_mod :: "int \<Rightarrow> int \<Rightarrow> int" where
  "c_mod a b = a - b * (sgn a * sgn b * (\<bar>a\<bar> div \<bar>b\<bar>))"

text \<open>
  What the body of the bin loop reads: the frame geometry, the ray count and resolution
  factor chosen for the tilt, the tilt index and the quantization parameters of the
  product. The loop is entered only with \<open>vol_num_gates \<noteq> 0\<close> and
  \<open>gate_spacing_meters > 0\<close> (the guard before the grids are allocated).
\<close>

record projection =
  first_gate_meters :: real
  gate_spacing_meters :: real
  vol_num_gates :: nat
  num_rays :: nat
  resolution_factor :: real
  tilt_idx :: nat
  quant_min :: real
  quant_max :: real

definition vol_num_rays :: nat where "vol_num_rays = 720"
definition vol_res_factor :: real where "vol_res_factor = 2"

text \<open>
  \<^verbatim>\<open>
  uint8_t val = quantize_value(value, params.value_min, params.value_max);
  if (val == 0) continue;
  int gate_idx = static_cast<int>(std::floor((range - frame->first_gate_meters) / frame->gate_spacing_meters));
  if (gate_idx < 0 || gate_idx >= static_cast<int>(vol_num_gates)) continue;
  int ray_idx_2d = static_cast<int>(std::floor(azimuth * resolution_factor + 0.01f)) % num_rays;
  if (ray_idx_2d < 0) ray_idx_2d += num_rays;
  size_t idx_2d = static_cast<size_t>(ray_idx_2d) * vol_num_gates + gate_idx;
  if (idx_2d < grid_2d.size()) grid_2d[idx_2d] = std::max(grid_2d[idx_2d], val);
  int ray_idx_3d = static_cast<int>(std::floor(azimuth * vol_res_factor + 0.01f)) % vol_num_rays;
  if (ray_idx_3d < 0) ray_idx_3d += vol_num_rays;
  size_t idx_3d = tilt_idx * vol_num_rays * vol_num_gates + ray_idx_3d * vol_num_gates + gate_idx;
  if (idx_3d < vol_grid.size()) {
      vol_grid[idx_3d] = std::max(vol_grid[idx_3d], val);
      if (resolution_factor < 1.5f) {
          int adjacent_ray = (ray_idx_3d + 1) % vol_num_rays;
          size_t adj_idx = ... adjacent_ray ...;
          if (adj_idx < vol_grid.size()) vol_grid[adj_idx] = std::max(vol_grid[adj_idx], val);
      }
  }
  \<close>
  One iteration either leaves the loop body by a \<open>continue\<close> (\<open>Dropped\<close>), or reaches the
  writes (\<open>Projected\<close>, with the new grids), or converts an out-of-range \<open>float\<close> to
  \<open>int\<close>. A bin is the triple \<open>(azimuth, range, value)\<close> of a sweep; its range and value
  are numbers, which the parser computes from integers and a numeric scale and offset.
\<close>

datatype 'a bin_outcome = UndefinedBehaviour | Dropped | Projected 'a

text \<open>
  The gate index. A zero gate spacing (excluded by the guard before the loop) would make
  the quotient an infinity or a NaN, whose conversion to \<open>int\<close> is undefined.
\<close>

definition gate_idx_of :: "projection \<Rightarrow> real \<Rightarrow> int option" where
  "gate_idx_of p range_m =
     (if gate_spacing_meters p = 0 then None
      else float_to_int
             (of_int \<lfloor>fl (fl (range_m - first_gate_meters p) / gate_spacing_meters p)\<rfloor>))"

text \<open>
  The ray index. The azimuth of a bin is the angle the parser decoded, any binary32
  value; the conversion to \<open>int\<close> is undefined for an infinity and a NaN.
\<close>

definition ray_idx_of :: "float32 \<Rightarrow> real \<Rightarrow> nat \<Rightarrow> int option" where
  "ray_idx_of azimuth factor rays =
     (case azimuth of
        Number a \<Rightarrow>
          (case float_to_int (of_int \<lfloor>fl (fl (a * factor) + fl (1 / 100))\<rfloor>) of
             None \<Rightarrow> None
           | Some r \<Rightarrow> (let m = c_mod r (int rays) in Some (if m < 0 then m + int rays else m)))
      | _ \<Rightarrow> None)"

definition store_max :: "u8 list \<Rightarrow> nat \<Rightarrow> u8 \<Rightarrow> u8 list" where
  "store_max grid idx val = (if idx < length grid then grid[idx := max (grid ! idx) val] else grid)"

definition project_bin ::
  "projection \<Rightarrow> u8 list \<times> u8 list \<Rightarrow> float32 \<times> real \<times> real
     \<Rightarrow> (u8 list \<times> u8 list) bin_outcome" where
  "project_bin p grids bin =
     (case grids of (grid_2d, vol_grid) \<Rightarrow>
      case bin of (azimuth, range_m, val_f) \<Rightarrow>
      case quantize_value val_f (quant_min p) (quant_max p) of
        None \<Rightarrow> UndefinedBehaviour
      | Some val \<Rightarrow>
          if val = 0 then Dropped
          else
            case gate_idx_of p range_m of
              None \<Rightarrow> UndefinedBehaviour
            | Some gate_idx \<Rightarrow>
                if gate_idx < 0 \<or> gate_idx \<ge> int (vol_num_gates p) then Dropped
                else
                  case (ray_idx_of azimuth (resolution_factor p) (num_rays p),
                        ray_idx_of azimuth vol_res_factor vol_num_rays) of
                    (Some ray_idx_2d, Some ray_idx_3d) \<Rightarrow>
                      let g = nat gate_idx;
                          idx_2d = nat ray_idx_2d * vol_num_gates p + g;
                          grid_2d' = store_max grid_2d idx_2d val;
                          idx_3d = tilt_idx p * vol_num_rays * vol_num_gates p
                                   + nat ray_idx_3d * vol_num_gates p + g;
                          vol_grid' =
                            (if idx_3d < length vol_grid
                             then (let v1 = vol_grid[idx_3d := max (vol_grid ! idx_3d) val] in
                                   if resolution_factor p < 3 / 2
                                   then (let adjacent_ray = c_mod (ray_idx_3d + 1) (int vol_num_rays);
                                             adj_idx = tilt_idx p * vol_num_rays * vol_num_gates p
                                                       + nat adjacent_ray * vol_num_gates p + g
                                         in store_max v1 adj_idx val)
                                   else v1)
                             else vol_grid)
                      in Projected (grid_2d', vol_grid')
                  | _ \<Rightarrow> UndefinedBehaviour)"

text \<open>The geometry of the gate-indexing scenario: first gate 500 m, spacing 250 m.\<close>

definition example_projection :: projection where
  "example_projection = \<lparr>first_gate_meters = 500, gate_spacing_meters = 250, vol_num_gates = 4,
     num_rays = 360, resolution_factor = 1, tilt_idx = 0, quant_min = -32, quant_max = 189 / 2\<rparr>"


section \<open>Radial decoding (RadarParser.cpp)\<close>

text \<open>
  The part of \<open>NEXRADParser::parse\<close> that handles one completed message: the dispatch on
  the effective message type inside the message loop. The frames (one per requested
  product, all updated in the same way), the counters and the sweep cursor are the
  state.

  The angles of a Message 31 are \<open>read_be_float\<close> of four bytes of the file, so they can
  be any binary32 value: a number, an infinity or a NaN. The angles, and the fields and
  bins that store them, are \<open>float32\<close>; every other \<open>float\<close> of the handlers is computed
  from integers and is the real number it denotes.
\<close>

record Sweep =
  sw_index :: int
  sw_elevation_num :: u8
  sw_elevation_deg :: float32
  sw_ray_count :: int
  sw_nyquist_velocity :: real
  sw_bins :: "float32 list"

record RadarFrame =
  rf_sweeps :: "Sweep list"
  rf_ngates :: int
  rf_vcp_number :: u16
  rf_gate_spacing_meters :: real
  rf_range_spacing_meters :: real
  rf_first_gate_meters :: real
  rf_nyquist_velocity :: "int \<rightharpoonup> real"
  rf_unambiguous_range_meters :: real
  rf_max_range_meters :: real

definition RadarFrame_new :: RadarFrame where
  "RadarFrame_new =
     \<lparr>rf_sweeps = [], rf_ngates = 0, rf_vcp_number = 0, rf_gate_spacing_meters = 0,
      rf_range_spacing_meters = 0, rf_first_gate_meters = 0, rf_nyquist_velocity = Map.empty,
      rf_unambiguous_range_meters = 0, rf_max_range_meters = 0\<rparr>"

record parse_state =
  ps_frames :: "(string \<times> RadarFrame) list"
  ps_message_count :: int
  ps_radial_count :: int
  ps_min_elevation :: float32
  ps_elevation_ray_counts :: "int \<Rightarrow> int"
  ps_current_sweep_idx :: int
  ps_current_elev_num :: u8
  ps_current_sweep_elevation :: float32
  ps_segmenter :: pending_messages

text \<open>The initial values of the locals of \<open>parse\<close> (one empty frame per product).\<close>

definition parse_state_init :: "string list \<Rightarrow> parse_state" where
  "parse_state_init product_types =
     \<lparr>ps_frames = map (\<lambda>pt. (pt, RadarFrame_new)) product_types,
      ps_message_count = 0, ps_radial_count = 0, ps_min_elevation = Number 999,
      ps_elevation_ray_counts = (\<lambda>_. 0), ps_current_sweep_idx = -1,
      ps_current_elev_num = 0xFF, ps_current_sweep_elevation = Number (-99),
      ps_segmenter = Map.empty\<rparr>"

definition get_moment_type :: "string \<Rightarrow> nat" where
  "get_moment_type product_type =
     (if product_type = ''reflectivity'' then 1
      else if product_type = ''velocity'' then 2
      else if product_type = ''spectrum_width'' then 3
      else if product_type = ''differential_reflectivity'' then 4
      else if product_type = ''differential_phase'' then 5
      else if product_type = ''cross_correlation_ratio'' \<or> product_type = ''correlation_coefficient''
      then 6 else 1)"

text \<open>
  \<^verbatim>\<open>
  float quantize_value_internal(float value, bool quantize)   // called with quantize = true
  { return std::round(value * 10.0f) * 0.1f; }
  static inline int get_tilt_key(float elevation)
  { return static_cast<int>(std::round(elevation * 100.0f)); }
  \<close>
  The conversion to \<open>int\<close> is undefined for a NaN, an infinity and a value outside the
  range of \<open>int\<close>: the result \<open>None\<close>.
\<close>

definition quantize_value_internal :: "real \<Rightarrow> real" where
  "quantize_value_internal v = fl (of_int (c_round (fl (v * 10))) * fl (1 / 10))"

definition get_tilt_key :: "float32 \<Rightarrow> int option" where
  "get_tilt_key elevation =
     (case elevation of
        Number e \<Rightarrow> float_to_int (of_int (c_round (fl (e * 100))))
      | _ \<Rightarrow> None)"

definition STATUS_START_ELEVATION :: u8 where "STATUS_START_ELEVATION = 0"
definition STATUS_START_VOLUME :: u8 where "STATUS_START_VOLUME = 3"
definition STATUS_START_ELEVATION_SEGMENTED :: u8 where "STATUS_START_ELEVATION_SEGMENTED = 5"

text \<open>
  The validity test both radial handlers apply to the decoded angles:
  \<^verbatim>\<open>
  if (azimuth < -0.1f || azimuth > 360.1f || elevation < -5.0f || elevation > 90.0f)
      { message_count++; continue; }
  \<close>
\<close>

definition angle_out_of_range :: "float32 \<Rightarrow> float32 \<Rightarrow> bool" where
  "angle_out_of_range azimuth elevation =
     (float_less azimuth (Number (- fl (1 / 10))) \<or> float_less (Number (fl (3601 / 10))) azimuth
      \<or> float_less elevation (Number (-5)) \<or> float_less (Number 90) elevation)"

text \<open>
  Helpers: a freshly opened sweep, an update of \<open>frame.sweeps[idx]\<close> (every frame
  holds \<open>current_sweep_idx + 1\<close> sweeps, so the index is in range), the same update on
  every frame, and the \<open>message_count++; continue\<close> exit. A handler returns the new
  state, or \<open>None\<close> when it runs into the undefined conversion of \<open>get_tilt_key\<close>.
\<close>

definition new_sweep :: "int \<Rightarrow> u8 \<Rightarrow> float32 \<Rightarrow> Sweep" where
  "new_sweep idx elev_num elevation =
     \<lparr>sw_index = idx, sw_elevation_num = elev_num, sw_elevation_deg = elevation,
      sw_ray_count = 0, sw_nyquist_velocity = 0, sw_bins = []\<rparr>"

definition on_sweep :: "int \<Rightarrow> (Sweep \<Rightarrow> Sweep) \<Rightarrow> RadarFrame \<Rightarrow> RadarFrame" where
  "on_sweep idx f frame =
     frame\<lparr>rf_sweeps := (rf_sweeps frame)[nat idx := f (rf_sweeps frame ! nat idx)]\<rparr>"

definition on_frames :: "(string \<Rightarrow> RadarFrame \<Rightarrow> RadarFrame) \<Rightarrow> parse_state \<Rightarrow> parse_state" where
  "on_frames f s = s\<lparr>ps_frames := map (\<lambda>(pt, frame). (pt, f pt frame)) (ps_frames s)\<rparr>"

definition skip_message :: "parse_state \<Rightarrow> parse_state" where
  "skip_message s = s\<lparr>ps_message_count := ps_message_count s + 1\<rparr>"

text \<open>
  Message 1 (legacy digital radar data): the fields the handler reads from the payload,
  as \<open>read_be\<close> decodes them (angles at offsets 8 and 16, status at 1, gate geometry at
  20 to 24, ranges at 26 and 28, one byte per gate from offset 46). Angles are
  \<open>raw * (360.0f / 65536.0f)\<close>, always numbers.
\<close>

record Message1 =
  m1_payload_size :: nat
  m1_azimuth_raw :: u16
  m1_elevation_raw :: u16
  m1_radial_status :: u8
  m1_first_gate :: u16
  m1_gate_size :: u16
  m1_num_gates :: u16
  m1_unam_rng_raw :: u16
  m1_nyquist_raw :: u16
  m1_gate_data :: "u8 list"

definition m1_azimuth :: "Message1 \<Rightarrow> float32" where
  "m1_azimuth m = Number (fl (real (unat (m1_azimuth_raw m)) * (45 / 8192)))"

definition m1_elevation :: "Message1 \<Rightarrow> float32" where
  "m1_elevation m = Number (fl (real (unat (m1_elevation_raw m)) * (45 / 8192)))"

definition m1_gate_bins :: "float32 \<Rightarrow> real \<Rightarrow> real \<Rightarrow> nat \<Rightarrow> u8 \<Rightarrow> float32 list" where
  "m1_gate_bins azimuth first_gate_m gate_size_m g raw_value =
     (if raw_value \<le> 1 then []
      else let v = fl (fl (real (unat raw_value) - 66) * (1 / 2)) in
           if v < -32 then []
           else [azimuth,
                 Number (fl (first_gate_m + fl (real g * gate_size_m))),
                 Number (quantize_value_internal v)])"

definition m1_on_frame :: "Message1 \<Rightarrow> float32 \<Rightarrow> int \<Rightarrow> int \<Rightarrow> string \<Rightarrow> RadarFrame \<Rightarrow> RadarFrame" where
  "m1_on_frame m azimuth idx active_key pt frame0 =
     (let frame = on_sweep idx (\<lambda>sw. sw\<lparr>sw_ray_count := sw_ray_count sw + 1\<rparr>) frame0 in
      if get_moment_type pt = 1 \<and> m1_payload_size m \<ge> 46
      then
        let f1 = (if m1_unam_rng_raw m > 0
                  then (let ur = fl (real (unat (m1_unam_rng_raw m)) * 100) in
                        frame\<lparr>rf_unambiguous_range_meters := ur,
                              rf_max_range_meters := max (rf_max_range_meters frame) ur\<rparr>)
                  else frame);
            f2 = (if m1_nyquist_raw m > 0
                  then (let nyquist = fl (real (unat (m1_nyquist_raw m)) * fl (1 / 10)) in
                        on_sweep idx (\<lambda>sw. sw\<lparr>sw_nyquist_velocity := nyquist\<rparr>)
                          (f1\<lparr>rf_nyquist_velocity := (rf_nyquist_velocity f1)(active_key \<mapsto> nyquist)\<rparr>))
                  else f1);
            num_gates = unat (m1_num_gates m);
            first_gate_m = real (unat (m1_first_gate m));
            gate_size_m = real (unat (m1_gate_size m))
        in
        if num_gates > 0 \<and> m1_payload_size m \<ge> 46 + num_gates
        then
          let f3 = (if rf_ngates f2 = 0 \<and> num_gates > 10
                    then f2\<lparr>rf_ngates := int num_gates, rf_gate_spacing_meters := gate_size_m,
                            rf_range_spacing_meters := gate_size_m,
                            rf_first_gate_meters := first_gate_m\<rparr>
                    else f2);
              bins = concat (map (\<lambda>g. m1_gate_bins azimuth first_gate_m gate_size_m g
                                         (m1_gate_data m ! g)) [0..<num_gates])
          in on_sweep idx (\<lambda>sw. sw\<lparr>sw_bins := sw_bins sw @ bins\<rparr>) f3
        else f2
      else frame)"

definition handle_message1 :: "Message1 \<Rightarrow> parse_state \<Rightarrow> parse_state option" where
  "handle_message1 m s =
     (if m1_payload_size m < 32 then Some (skip_message s)
      else
        let azimuth = m1_azimuth m; elevation = m1_elevation m in
        if angle_out_of_range azimuth elevation then Some (skip_message s)
        else
          let s0 = (if float_less elevation (ps_min_elevation s)
                    then s\<lparr>ps_min_elevation := elevation\<rparr> else s);
              radial_status = m1_radial_status m;
              is_new_sweep = (radial_status = STATUS_START_ELEVATION
                              \<or> radial_status = STATUS_START_VOLUME
                              \<or> radial_status = STATUS_START_ELEVATION_SEGMENTED
                              \<or> ps_current_sweep_idx s0 = -1);
              s1 = (if is_new_sweep
                    then (let idx = ps_current_sweep_idx s0 + 1 in
                          on_frames (\<lambda>pt frame. frame\<lparr>rf_sweeps := rf_sweeps frame @
                                         [new_sweep idx 0 elevation]\<rparr>)
                            (s0\<lparr>ps_current_sweep_idx := idx,
                                ps_current_sweep_elevation := elevation\<rparr>))
                    else s0);
              s2 = (if ps_current_sweep_idx s1 \<ge> 0
                    then (case get_tilt_key (ps_current_sweep_elevation s1) of
                            None \<Rightarrow> None
                          | Some active_key \<Rightarrow>
                              Some (on_frames
                                (m1_on_frame m azimuth (ps_current_sweep_idx s1) active_key)
                                (s1\<lparr>ps_elevation_ray_counts := (ps_elevation_ray_counts s1)
                                      (active_key := ps_elevation_ray_counts s1 active_key + 1)\<rparr>)))
                    else Some s1)
          in map_option (\<lambda>s2. s2\<lparr>ps_radial_count := ps_radial_count s2 + 1,
                                 ps_message_count := ps_message_count s2 + 1\<rparr>) s2)"


text \<open>
  Message 31 (generic digital radar data). A data block is what the payload holds at a
  block pointer, read through the block structs: type and name, the VOL, RAD and
  moment fields, and the gate words decoded according to the word size. The angles are
  any binary32 value; the scale and the offset of a moment block, also \<open>read_be_float\<close>,
  are taken to be numbers and the scale non-zero.
\<close>

record DataBlock =
  db_pointer :: "32 word"
  db_type :: char
  db_name :: string
  db_vcp_number :: u16
  db_unambiguous_range :: u16
  db_nyquist_velocity :: u16
  db_num_gates :: u16
  db_first_gate :: u16
  db_gate_spacing :: u16
  db_data_word_size :: u8
  db_scale :: real
  db_offset :: real
  db_gates :: "u16 list"

record Message31 =
  m31_payload_size :: nat
  m31_azimuth_angle :: float32
  m31_elev_angle :: float32
  m31_radial_status :: u8
  m31_elev_number :: u8
  m31_block_count :: u16
  m31_blocks :: "DataBlock list"

definition sizeof_Message31Header :: nat where "sizeof_Message31Header = 36"
definition sizeof_DataBlock_Header :: nat where "sizeof_DataBlock_Header = 4"
definition sizeof_DataBlock_Volume :: nat where "sizeof_DataBlock_Volume = 44"
definition sizeof_DataBlock_Radial :: nat where "sizeof_DataBlock_Radial = 20"
definition sizeof_DataBlock_Moment :: nat where "sizeof_DataBlock_Moment = 28"

text \<open>
  \<open>safe_read_struct<T>(data, data_size, offset)\<close> with a non-null \<open>data\<close>: the struct must
  fit between \<open>offset\<close> and the end.
\<close>

definition safe_read_struct :: "nat \<Rightarrow> nat \<Rightarrow> nat \<Rightarrow> bool" where
  "safe_read_struct data_size offset sizeof_T =
     (if offset > data_size then False
      else if data_size - offset < sizeof_T then False
      else True)"

definition is_target_moment :: "nat \<Rightarrow> string \<Rightarrow> bool" where
  "is_target_moment tm dname =
     (if tm = 1 \<and> take 3 dname = ''REF'' then True
      else if tm = 2 \<and> take 3 dname = ''VEL'' then True
      else if tm = 3 \<and> take 2 dname = ''SW'' then True
      else if tm = 4 \<and> take 3 dname = ''ZDR'' then True
      else if tm = 5 \<and> take 3 dname = ''PHI'' then True
      else if tm = 6 \<and> take 3 dname = ''RHO'' then True
      else False)"

definition m31_gate_bins ::
  "nat \<Rightarrow> float32 \<Rightarrow> real \<Rightarrow> real \<Rightarrow> real \<Rightarrow> real \<Rightarrow> nat \<Rightarrow> u16 \<Rightarrow> float32 list" where
  "m31_gate_bins tm azimuth fg gs sc ov g raw =
     (if raw \<le> 1 then []
      else let v = fl (fl (real (unat raw) - ov) / sc) in
           if tm = 1 \<and> v < -32 then []
           else [azimuth, Number (fl (fg + fl (real g * gs))),
                 Number (quantize_value_internal v)])"

definition m31_moment_on_frame ::
  "DataBlock \<Rightarrow> float32 \<Rightarrow> int \<Rightarrow> string \<Rightarrow> RadarFrame \<Rightarrow> RadarFrame" where
  "m31_moment_on_frame b azimuth idx pt f =
     (let tm = get_moment_type pt in
      if \<not> is_target_moment tm (take 3 (db_name b)) then f
      else
        let ng = unat (db_num_gates b);
            fg = real (unat (db_first_gate b));
            gs = real (unat (db_gate_spacing b));
            f1 = (if rf_ngates f = 0 \<and> ng > 10
                  then f\<lparr>rf_ngates := int ng, rf_gate_spacing_meters := gs,
                         rf_range_spacing_meters := gs, rf_first_gate_meters := fg\<rparr>
                  else f);
            bins = concat (map (\<lambda>g. m31_gate_bins tm azimuth fg gs (db_scale b) (db_offset b) g
                                       (db_gates b ! g)) [0..<ng])
        in on_sweep idx (\<lambda>sw. sw\<lparr>sw_bins := sw_bins sw @ bins\<rparr>) f1)"

definition m31_block ::
  "Message31 \<Rightarrow> float32 \<Rightarrow> int \<Rightarrow> int \<Rightarrow> DataBlock \<Rightarrow> parse_state \<Rightarrow> parse_state" where
  "m31_block m azimuth idx active_key b s =
     (let payload_size = m31_payload_size m; b_off = unat (db_pointer b) in
      if \<not> safe_pointer_dereference (ucast (db_pointer b)) (of_nat sizeof_DataBlock_Header)
            (of_nat payload_size)
      then s
      else if take 3 (db_name b) = ''VOL''
      then (if safe_read_struct payload_size b_off sizeof_DataBlock_Volume
            then on_frames (\<lambda>pt f. f\<lparr>rf_vcp_number := db_vcp_number b\<rparr>) s
            else s)
      else if take 3 (db_name b) = ''RAD''
      then (if safe_read_struct payload_size b_off sizeof_DataBlock_Radial
            then (let nyq = fl (real (unat (db_nyquist_velocity b)) * fl (1 / 100));
                      ur = db_unambiguous_range b
                  in on_frames (\<lambda>pt f.
                       let f1 = (if nyq > 0
                                 then on_sweep idx (\<lambda>sw. sw\<lparr>sw_nyquist_velocity := nyq\<rparr>)
                                        (f\<lparr>rf_nyquist_velocity :=
                                              (rf_nyquist_velocity f)(active_key \<mapsto> nyq)\<rparr>)
                                 else f)
                       in if ur > 0
                          then (let r = fl (real (unat ur) * 100) in
                                f1\<lparr>rf_unambiguous_range_meters := r,
                                   rf_max_range_meters := max (rf_max_range_meters f1) r\<rparr>)
                          else f1) s)
            else s)
      else if db_type b = CHR ''D''
      then (if \<not> safe_read_struct payload_size b_off sizeof_DataBlock_Moment then s
            else
              let ng = unat (db_num_gates b);
                  ws = (if db_data_word_size b = 0 then 8 else unat (db_data_word_size b))
              in
              if ng = 0 \<or> ng > 8000 \<or> db_gate_spacing b = 0 \<or> (ws \<noteq> 8 \<and> ws \<noteq> 16) then s
              else if b_off + sizeof_DataBlock_Moment + ng * (ws div 8) > payload_size then s
              else on_frames (m31_moment_on_frame b azimuth idx) s)
      else s)"

definition handle_message31 :: "Message31 \<Rightarrow> parse_state \<Rightarrow> parse_state option" where
  "handle_message31 m s =
     (if m31_payload_size m < sizeof_Message31Header then Some (skip_message s)
      else if m31_block_count m > 100 then Some (skip_message s)
      else
        let azimuth = m31_azimuth_angle m; elevation = m31_elev_angle m in
        if angle_out_of_range azimuth elevation then Some (skip_message s)
        else
          let radial_status = m31_radial_status m;
              elev_num = m31_elev_number m;
              is_new_sweep = (radial_status = STATUS_START_ELEVATION
                              \<or> radial_status = STATUS_START_VOLUME
                              \<or> radial_status = STATUS_START_ELEVATION_SEGMENTED
                              \<or> (elev_num \<noteq> ps_current_elev_num s \<and> ps_current_sweep_idx s \<ge> 0)
                              \<or> ps_current_sweep_idx s = -1);
              s1 = (if is_new_sweep
                    then (let idx = ps_current_sweep_idx s + 1 in
                          on_frames (\<lambda>pt frame. frame\<lparr>rf_sweeps := rf_sweeps frame @
                                         [new_sweep idx elev_num elevation]\<rparr>)
                            (s\<lparr>ps_current_sweep_idx := idx,
                               ps_current_elev_num := elev_num,
                               ps_current_sweep_elevation := elevation,
                               ps_segmenter := (if radial_status = STATUS_START_VOLUME
                                                then Map.empty else ps_segmenter s)\<rparr>))
                    else s);
              s2 = (if ps_current_sweep_idx s1 \<ge> 0
                    then (let sm = (if float_less elevation (ps_min_elevation s1)
                                    then s1\<lparr>ps_min_elevation := elevation\<rparr> else s1)
                          in case get_tilt_key (ps_current_sweep_elevation sm) of
                               None \<Rightarrow> None
                             | Some active_key \<Rightarrow>
                                 let idx = ps_current_sweep_idx sm;
                                     sr = on_frames (\<lambda>pt. on_sweep idx
                                            (\<lambda>sw. sw\<lparr>sw_ray_count := sw_ray_count sw + 1\<rparr>))
                                          (sm\<lparr>ps_elevation_ray_counts := (ps_elevation_ray_counts sm)
                                             (active_key := ps_elevation_ray_counts sm active_key + 1)\<rparr>)
                                 in Some (fold (m31_block m azimuth idx active_key)
                                            (take (unat (m31_block_count m)) (m31_blocks m)) sr))
                    else Some s1)
          in map_option (\<lambda>s2. s2\<lparr>ps_radial_count := ps_radial_count s2 + 1,
                                 ps_message_count := ps_message_count s2 + 1\<rparr>) s2)"

text \<open>The dispatch on the effective type: 1, 31, anything else.\<close>

datatype radial_message = LegacyRadial Message1 | GenericRadial Message31 | OtherMessage u8

definition dispatch_message :: "radial_message \<Rightarrow> parse_state \<Rightarrow> parse_state option" where
  "dispatch_message msg s =
     (case msg of
        LegacyRadial m \<Rightarrow> handle_message1 m s
      | GenericRadial m \<Rightarrow> handle_message31 m s
      | OtherMessage t \<Rightarrow> Some (skip_message s))"

text \<open>The decoded angles of a radial message.\<close>

definition radial_angles :: "radial_message \<Rightarrow> (float32 \<times> float32) option" where
  "radial_angles msg =
     (case msg of
        LegacyRadial m \<Rightarrow> Some (m1_azimuth m, m1_elevation m)
      | GenericRadial m \<Rightarrow> Some (m31_azimuth_angle m, m31_elev_angle m)
      | OtherMessage t \<Rightarrow> None)"

text \<open>
  A Message 31 radial that starts an elevation, with one REF block of two gates (raw 128
  and 0, scale 2, offset 2, first gate 2125 m) behind the 36-byte header: 66 bytes. Its
  angles are parameters.
\<close>

definition example_ref_block :: DataBlock where
  "example_ref_block =
     \<lparr>db_pointer = 36, db_type = CHR ''D'', db_name = ''REF'', db_vcp_number = 0,
      db_unambiguous_range = 0, db_nyquist_velocity = 0, db_num_gates = 2,
      db_first_gate = 2125, db_gate_spacing = 250, db_data_word_size = 8,
      db_scale = 2, db_offset = 2, db_gates = [128, 0]\<rparr>"

definition example_radial :: "float32 \<Rightarrow> float32 \<Rightarrow> Message31" where
  "example_radial azimuth elevation =
     \<lparr>m31_payload_size = 66, m31_azimuth_angle = azimuth, m31_elev_angle = elevation,
      m31_radial_status = 0, m31_elev_number = 1, m31_block_count = 1,
      m31_blocks = [example_ref_block]\<rparr>"

text \<open>The bins of every sweep of every frame.\<close>

definition all_bins :: "parse_state \<Rightarrow> float32 list list list" where
  "all_bins s = map (\<lambda>(pt, f). map sw_bins (rf_sweeps f)) (ps_frames s)"


section \<open>Frame storage and retention (FrameStorageManager.cpp)\<close>

text \<open>
  The storage tree is \<open>base/<station>/<timestamp>/<product>/<tilt>.RDA\<close>. A directory is
  the list of its entries in the order \<open>fs::directory_iterator\<close> yields them; the names of
  the entries of one directory are distinct (\<open>wf_station_dir\<close> below states this for a
  station directory and its timestamp directories). The content of a regular file plays
  no role in retention and is left out.
\<close>

datatype fs_node = RegularFile | Directory "(string \<times> fs_node) list"

type_synonym dir_entries = "(string \<times> fs_node) list"

type_synonym frame_index = "(string \<times> string) list"

fun is_directory :: "fs_node \<Rightarrow> bool" where
  "is_directory (Directory children) = True"
| "is_directory RegularFile = False"

text \<open>
  \<^verbatim>\<open>
  for (const auto& ts_entry : fs::directory_iterator(station_dir)) {
      if (!ts_entry.is_directory()) continue;
      std::string product_dir = ts_entry.path().string() + "/" + product;
      if (!fs::exists(product_dir)) continue;
      for (const auto& file_entry : fs::directory_iterator(product_dir)) {
          if (!file_entry.is_regular_file()) continue;
          std::string ext = file_entry.path().extension().string();
          if (ext != ".RDA") continue;
          FrameMetadata meta;
          ...
          meta.timestamp = ts_entry.path().filename().string();
          try { meta.tilt = std::stof(file_entry.path().stem().string()); }
          catch (...) { meta.tilt = 0.0f; }
          frames.push_back(meta);
      }
  }
  std::sort(frames.begin(), frames.end(),
            [](const auto& a, const auto& b) { return a.timestamp > b.timestamp; });
  return frames;
  \<close>

  \<open>scan_directory\<close> yields one entry per regular file with extension \<open>.RDA\<close>: its
  timestamp and the stem of its name (the text the tilt is parsed from). Iterating a
  \<open>product_dir\<close> that exists but is a regular file throws; \<open>scan_directory\<close> has no handler,
  so the exception reaches the caller. The entries are sorted by descending timestamp;
  \<open>std::sort\<close> leaves the order of the entries of one timestamp open, the model keeps them
  in reverse scan order.
\<close>

definition rda_stem :: "string \<Rightarrow> string option" where
  "rda_stem name =
     (if length name > 4 \<and> drop (length name - 4) name = ''.RDA''
      then Some (take (length name - 4) name) else None)"

fun scan_product_dir :: "string \<Rightarrow> dir_entries \<Rightarrow> frame_index" where
  "scan_product_dir timestamp [] = []"
| "scan_product_dir timestamp ((name, node) # files) =
     (case (node, rda_stem name) of
        (RegularFile, Some stem) \<Rightarrow> (timestamp, stem) # scan_product_dir timestamp files
      | _ \<Rightarrow> scan_product_dir timestamp files)"

fun scan_timestamps :: "string \<Rightarrow> dir_entries \<Rightarrow> scan_exn + frame_index" where
  "scan_timestamps product [] = Inr []"
| "scan_timestamps product ((timestamp, node) # rest) =
     (case node of
        RegularFile \<Rightarrow> scan_timestamps product rest
      | Directory children \<Rightarrow>
          (case map_of children product of
             None \<Rightarrow> scan_timestamps product rest
           | Some RegularFile \<Rightarrow> Inl FilesystemError
           | Some (Directory files) \<Rightarrow>
               (case scan_timestamps product rest of
                  Inl e \<Rightarrow> Inl e
                | Inr frames \<Rightarrow> Inr (scan_product_dir timestamp files @ frames))))"

definition scan_directory :: "dir_entries \<Rightarrow> string \<Rightarrow> scan_exn + frame_index" where
  "scan_directory station_dir product =
     (case scan_timestamps product station_dir of
        Inl e \<Rightarrow> Inl e
      | Inr frames \<Rightarrow> Inr (rev (sort_key fst frames)))"

text \<open>
  \<^verbatim>\<open>
  try {
      auto frames = scan_directory(station, product);
      json index = { {"s", station}, {"p", product}, ..., {"c", frames.size()}, {"f", json::array()} };
      for (const auto& frame : frames)
          index["f"].push_back({{"t", frame.timestamp}, {"e", frame.tilt}});
      ...
      index_cache_[station + "/" + product] = index;
  } catch (...) {}
  \<close>

  The index of a station and product is the list of the scanned frames. It is kept in the
  cache and written to the regular file \<open>base/<station>/index_<product>.json\<close>, which
  every loop below skips (it is not a directory); the model keeps the index in a map.
  When the scan throws, the index is left as it was.
\<close>

type_synonym index_store = "string \<times> string \<rightharpoonup> frame_index"

definition update_index :: "string \<Rightarrow> string \<Rightarrow> dir_entries \<Rightarrow> index_store \<Rightarrow> index_store" where
  "update_index station product station_dir idx =
     (case scan_directory station_dir product of
        Inl e \<Rightarrow> idx
      | Inr frames \<Rightarrow> idx((station, product) \<mapsto> frames))"

text \<open>
  \<^verbatim>\<open>
  std::unordered_map<std::string, std::vector<std::string>> products;
  for (const auto& ts_entry : fs::directory_iterator(station_entry)) {
      if (!ts_entry.is_directory()) continue;
      for (const auto& prod_entry : fs::directory_iterator(ts_entry)) {
          if (prod_entry.is_directory())
              products[prod_entry.path().filename().string()]
                  .push_back(ts_entry.path().filename().string());
      }
  }
  \<close>

  The map from product names to the timestamps that hold a directory of that name, as an
  association list in order of first insertion (the iteration order of the
  \<open>unordered_map\<close> is open; the steps for different products act on different paths).
\<close>

fun products_add :: "string \<Rightarrow> string \<Rightarrow> (string \<times> string list) list \<Rightarrow> (string \<times> string list) list" where
  "products_add product timestamp [] = [(product, [timestamp])]"
| "products_add product timestamp ((p, tss) # rest) =
     (if p = product then (p, tss @ [timestamp]) # rest
      else (p, tss) # products_add product timestamp rest)"

fun collect_children :: "string \<Rightarrow> dir_entries \<Rightarrow> (string \<times> string list) list \<Rightarrow> (string \<times> string list) list" where
  "collect_children timestamp [] prods = prods"
| "collect_children timestamp ((name, node) # children) prods =
     collect_children timestamp children
       (if is_directory node then products_add name timestamp prods else prods)"

fun collect_products :: "dir_entries \<Rightarrow> (string \<times> string list) list \<Rightarrow> (string \<times> string list) list" where
  "collect_products [] prods = prods"
| "collect_products ((timestamp, node) # rest) prods =
     collect_products rest
       (case node of
          RegularFile \<Rightarrow> prods
        | Directory children \<Rightarrow> collect_children timestamp children prods)"

text \<open>
  \<open>fs::remove_all(station_dir + "/" + timestamp + "/" + product)\<close> removes the entry named
  \<open>product\<close> from the timestamp directory, with everything below it.
\<close>

definition remove_child :: "string \<Rightarrow> fs_node \<Rightarrow> fs_node" where
  "remove_child name node =
     (case node of
        RegularFile \<Rightarrow> RegularFile
      | Directory children \<Rightarrow> Directory (filter (\<lambda>(n, c). n \<noteq> name) children))"

definition remove_all_product :: "string \<Rightarrow> string \<Rightarrow> dir_entries \<Rightarrow> dir_entries" where
  "remove_all_product product timestamp station_dir =
     map (\<lambda>(n, node). if n = timestamp then (n, remove_child product node) else (n, node))
       station_dir"

text \<open>
  \<^verbatim>\<open>
  for (auto& [prod, timestamps] : products) {
      std::sort(timestamps.rbegin(), timestamps.rend());
      if (timestamps.size() > static_cast<size_t>(max_frames_per_station)) {
          for (size_t i = max_frames_per_station; i < timestamps.size(); ++i) {
              fs::remove_all(station_entry.path().string() + "/" + timestamps[i] + "/" + prod);
          }
          update_index(station_entry.path().filename().string(), prod);
      }
  }
  \<close>

  A negative \<open>max_frames_per_station\<close> converts to a \<open>size_t\<close> above every vector size, so
  nothing is deleted. \<open>cleanup_old_frames\<close> returns at once when the base path does not
  exist (\<open>None\<close>) and skips the entries of the base directory that are not directories.
\<close>

definition cleanup_product ::
  "int \<Rightarrow> string \<Rightarrow> string \<times> string list \<Rightarrow> dir_entries \<times> index_store
     \<Rightarrow> dir_entries \<times> index_store" where
  "cleanup_product max_frames station entry st =
     (case entry of (product, timestamps0) \<Rightarrow>
      case st of (station_dir, idx) \<Rightarrow>
        let timestamps = rev (sort timestamps0) in
        if 0 \<le> max_frames \<and> length timestamps > nat max_frames
        then
          let station_dir' = fold (remove_all_product product)
                               (drop (nat max_frames) timestamps) station_dir
          in (station_dir', update_index station product station_dir' idx)
        else (station_dir, idx))"

definition cleanup_station ::
  "int \<Rightarrow> string \<Rightarrow> dir_entries \<Rightarrow> index_store \<Rightarrow> dir_entries \<times> index_store" where
  "cleanup_station max_frames station station_dir idx =
     fold (cleanup_product max_frames station)
       (collect_products station_dir []) (station_dir, idx)"

fun cleanup_stations :: "int \<Rightarrow> dir_entries \<Rightarrow> index_store \<Rightarrow> dir_entries \<times> index_store" where
  "cleanup_stations max_frames [] idx = ([], idx)"
| "cleanup_stations max_frames ((station, node) # rest) idx =
     (case node of
        RegularFile \<Rightarrow>
          (case cleanup_stations max_frames rest idx of
             (rest', idx') \<Rightarrow> ((station, RegularFile) # rest', idx'))
      | Directory station_dir \<Rightarrow>
          (case cleanup_station max_frames station station_dir idx of
             (station_dir', idx1) \<Rightarrow>
               (case cleanup_stations max_frames rest idx1 of
                  (rest', idx') \<Rightarrow> ((station, Directory station_dir') # rest', idx'))))"

definition cleanup_old_frames ::
  "int \<Rightarrow> dir_entries option \<Rightarrow> index_store \<Rightarrow> dir_entries option \<times> index_store" where
  "cleanup_old_frames max_frames base idx =
     (case base of
        None \<Rightarrow> (None, idx)
      | Some stations \<Rightarrow>
          (case cleanup_stations max_frames stations idx of
             (stations', idx') \<Rightarrow> (Some stations', idx')))"

text \<open>
  The timestamps of a station that hold a directory for the product, in directory order:
  the on-disk timestamps of the station and product.
\<close>

definition product_timestamps :: "dir_entries \<Rightarrow> string \<Rightarrow> string list" where
  "product_timestamps station_dir product =
     map fst (filter (\<lambda>(timestamp, node).
        case node of RegularFile \<Rightarrow> False
        | Directory children \<Rightarrow> (case map_of children product of
             Some (Directory files) \<Rightarrow> True | _ \<Rightarrow> False)) station_dir)"

text \<open>
  Example trees: station directories with timestamps \<open>20260215_15mm00\<close> for
  \<open>mm = 00, 01, ...\<close>, each holding a \<open>reflectivity\<close> directory with the given files.
\<close>

definition digit2 :: "nat \<Rightarrow> string" where
  "digit2 n = [char_of (48 + n div 10), char_of (48 + n mod 10)]"

definition example_timestamp :: "nat \<Rightarrow> string" where
  "example_timestamp n = ''20260215_15'' @ digit2 n @ ''00''"

definition example_station_dir :: "dir_entries \<Rightarrow> nat \<Rightarrow> dir_entries" where
  "example_station_dir files n =
     map (\<lambda>k. (example_timestamp k, Directory [(''reflectivity'', Directory files)])) [0..<n]"

definition single_tilt_station :: dir_entries where
  "single_tilt_station = example_station_dir [(''0.5.RDA'', RegularFile)] 35"

definition multi_tilt_station :: dir_entries where
  "multi_tilt_station =
     example_station_dir [(''0.5.RDA'', RegularFile), (''1.5.RDA'', RegularFile)] 35"

text \<open>
  A station directory is well formed when entry names are distinct in it and in each of
  its timestamp directories. \<open>pview\<close> is what the scan and the collection of timestamps
  read of a station directory for one product: for each entry, its name and the child
  named like the product, if any.
\<close>

definition wf_station_dir :: "dir_entries \<Rightarrow> bool" where
  "wf_station_dir d =
     (distinct (map fst d) \<and>
      list_all (\<lambda>(timestamp, node).
         case node of RegularFile \<Rightarrow> True | Directory children \<Rightarrow> distinct (map fst children)) d)"

definition pview :: "string \<Rightarrow> dir_entries \<Rightarrow> (string \<times> fs_node option) list" where
  "pview product d =
     map (\<lambda>(timestamp, node).
        (timestamp, case node of RegularFile \<Rightarrow> None | Directory children \<Rightarrow> map_of children product)) d"

fun scan_view :: "(string \<times> fs_node option) list \<Rightarrow> scan_exn + frame_index" where
  "scan_view [] = Inr []"
| "scan_view ((timestamp, c) # rest) =
     (case c of
        None \<Rightarrow> scan_view rest
      | Some RegularFile \<Rightarrow> Inl FilesystemError
      | Some (Directory files) \<Rightarrow>
          (case scan_view rest of
             Inl e \<Rightarrow> Inl e
           | Inr frames \<Rightarrow> Inr (scan_product_dir timestamp files @ frames)))"

definition is_dir_opt :: "fs_node option \<Rightarrow> bool" where
  "is_dir_opt c = (case c of Some (Directory files) \<Rightarrow> True | _ \<Rightarrow> False)"

definition tss_of :: "(string \<times> string list) list \<Rightarrow> string \<Rightarrow> string list" where
  "tss_of prods q = (case map_of prods q of None \<Rightarrow> [] | Some l \<Rightarrow> l)"

section \<open>Properties of the bitmask encoding\<close>

lemma popcount8_card: "popcount8 w = card {k. k < 8 \<and> bit w k}"
proof -
  have "distinct (filter (bit w) [0..<8])" by simp
  then have "length (filter (bit w) [0..<8]) = card (set (filter (bit w) [0..<8]))"
    by (rule distinct_card [symmetric])
  also have "set (filter (bit w) [0..<8]) = {k. k < 8 \<and> bit w k}" by auto
  finally show ?thesis by (simp add: popcount8_def)
qed

lemma popcount8_set_bit:
  assumes "k < 8" "\<not> bit w k"
  shows "popcount8 (w OR push_bit k 1) = Suc (popcount8 w)"
proof -
  have "{j. j < 8 \<and> bit (w OR push_bit k 1) j} = insert k {j. j < 8 \<and> bit w j}"
    using assms by (auto simp: bit_simps)
  moreover have "k \<notin> {j. j < 8 \<and> bit w j}" using assms by simp
  moreover have "finite {j. j < 8 \<and> bit w j}" by simp
  ultimately show ?thesis by (simp add: popcount8_card)
qed

lemma count_set_bits_update:
  assumes "i < length bm"
  shows "count_set_bits (bm[i := w]) + popcount8 (bm ! i) = count_set_bits bm + popcount8 w"
  using assms
proof (induction bm arbitrary: i)
  case Nil then show ?case by simp
next
  case (Cons a bm)
  then show ?case by (cases i) (auto simp: count_set_bits_def)
qed

text \<open>
  Loop invariant after the iterations \<open>b = 0, \<dots>, n - 1\<close>: the bitmask keeps its
  length, bit \<open>7 - j mod 8\<close> of byte \<open>j div 8\<close> is set exactly for the non-zero cells
  below \<open>n\<close> (in particular the padding bits stay clear), the values are the non-zero
  cells below \<open>n\<close> in index order, and there are as many set bits as values.
\<close>

lemma encode_prefix_inv:
  fixes grid :: "u8 list"
  defines "run \<equiv> (\<lambda>n. fold (\<lambda>b s. bitmask_step grid s b) [0..<n]
                        (replicate ((length grid + 7) div 8) 0, []))"
  assumes "n \<le> length grid"
  shows "length (fst (run n)) = (length grid + 7) div 8
       \<and> (\<forall>j < 8 * ((length grid + 7) div 8).
             bit (fst (run n) ! (j div 8)) (7 - j mod 8) \<longleftrightarrow> (j < n \<and> grid ! j \<noteq> 0))
       \<and> snd (run n) = filter (\<lambda>v. v \<noteq> 0) (take n grid)
       \<and> count_set_bits (fst (run n)) = length (snd (run n))"
  using assms(2)
proof (induction n)
  case 0
  have "count_set_bits (replicate m 0) = 0" for m
    by (induction m) (simp_all add: count_set_bits_def popcount8_def)
  then show ?case by (simp add: run_def)
next
  case (Suc n)
  then have n: "n < length grid" and IH: "length (fst (run n)) = (length grid + 7) div 8"
    "\<forall>j < 8 * ((length grid + 7) div 8).
        bit (fst (run n) ! (j div 8)) (7 - j mod 8) \<longleftrightarrow> (j < n \<and> grid ! j \<noteq> 0)"
    "snd (run n) = filter (\<lambda>v. v \<noteq> 0) (take n grid)"
    "count_set_bits (fst (run n)) = length (snd (run n))"
    by simp_all
  obtain bm vals where s: "run n = (bm, vals)" by (cases "run n")
  have step: "run (Suc n) = bitmask_step grid (run n) n"
    by (simp add: run_def)
  have tk: "take (Suc n) grid = take n grid @ [grid ! n]"
    using n by (simp add: take_Suc_conv_app_nth)
  show ?case
  proof (cases "grid ! n = 0")
    case True
    then have "run (Suc n) = run n" by (simp add: step bitmask_step_def s)
    moreover have "(j < Suc n \<and> grid ! j \<noteq> 0) \<longleftrightarrow> (j < n \<and> grid ! j \<noteq> 0)" for j
      using True by (auto simp: less_Suc_eq)
    ultimately show ?thesis using IH True by (simp add: tk)
  next
    case False
    let ?i = "n div 8" and ?k = "7 - n mod 8"
    let ?w = "bm ! ?i OR push_bit ?k 1"
    have i: "?i < length bm" using n IH(1) s by simp
    have n8: "n < 8 * ((length grid + 7) div 8)" using n by arith
    have new: "run (Suc n) = (bm[?i := ?w], vals @ [grid ! n])"
      using False by (simp add: step bitmask_step_def s word_gt_0)
    have unset: "\<not> bit (bm ! ?i) ?k" using IH(2) n8 s by auto
    have bits: "bit (bm[?i := ?w] ! (j div 8)) (7 - j mod 8) \<longleftrightarrow> (j < Suc n \<and> grid ! j \<noteq> 0)"
      if j: "j < 8 * ((length grid + 7) div 8)" for j
    proof (cases "j div 8 = ?i")
      case True
      have "j mod 8 < 8" "n mod 8 < 8" by simp_all
      then have "7 - j mod 8 = ?k \<longleftrightarrow> j mod 8 = n mod 8" by arith
      also have "\<dots> \<longleftrightarrow> j = n"
        using True by (metis div_mult_mod_eq)
      finally have "7 - j mod 8 = ?k \<longleftrightarrow> j = n" .
      then show ?thesis using True i IH(2) j s False
        by (auto simp: bit_simps less_Suc_eq)
    next
      case False
      then have "j \<noteq> n" by auto
      then show ?thesis using False IH(2) j s by (auto simp: less_Suc_eq)
    qed
    have cnt: "count_set_bits (bm[?i := ?w]) = Suc (count_set_bits bm)"
      using count_set_bits_update [OF i, of ?w] popcount8_set_bit [OF _ unset] by simp
    show ?thesis using IH s False bits cnt
      by (simp add: new tk)
  qed
qed

lemma encode_bitmask_example:
  "encode_bitmask [42, 0, 0, 0, 0, 0, 0, 84, 99, 0, 0, 0, 0, 0, 0, 0] = ([0x81, 0x80], [42, 84, 99])"
  by code_simp

text \<open>
  Claim C1. For every grid of \<open>N\<close> cells, the bitmask has \<open>\<lceil>N/8\<rceil>\<close> bytes, bit
  \<open>7 - (i mod 8)\<close> of byte \<open>i div 8\<close> is set iff cell \<open>i\<close> is non-zero, the values are
  exactly the non-zero cells in increasing index order, the number of set bits of the
  whole bitmask equals the number of values, and every emitted value lies in
  \<open>1..255\<close>. The 16-cell grid with 42, 84, 99 at indices 0, 7, 8 encodes to
  bitmask \<open>[0x81, 0x80]\<close> and values \<open>[42, 84, 99]\<close>.
\<close>

theorem bitmask_encoding_correct:
  "length (fst (encode_bitmask grid)) = (length grid + 7) div 8
   \<and> (\<forall>i < length grid.
         bit (fst (encode_bitmask grid) ! (i div 8)) (7 - i mod 8) \<longleftrightarrow> grid ! i \<noteq> 0)
   \<and> snd (encode_bitmask grid) = filter (\<lambda>v. v \<noteq> 0) grid
   \<and> count_set_bits (fst (encode_bitmask grid)) = length (snd (encode_bitmask grid))
   \<and> (\<forall>v \<in> set (snd (encode_bitmask grid)). 1 \<le> unat v \<and> unat v \<le> 255)
   \<and> encode_bitmask [42, 0, 0, 0, 0, 0, 0, 84, 99, 0, 0, 0, 0, 0, 0, 0]
       = ([0x81, 0x80], [42, 84, 99])"
proof -
  note inv = encode_prefix_inv [of "length grid" grid, folded encode_bitmask_def, simplified]
  have len: "length (fst (encode_bitmask grid)) = (length grid + 7) div 8"
    using inv by blast
  have bits: "bit (fst (encode_bitmask grid) ! (i div 8)) (7 - i mod 8) \<longleftrightarrow> grid ! i \<noteq> 0"
    if "i < length grid" for i
  proof -
    have "i < 8 * ((length grid + 7) div 8)" using that by arith
    then show ?thesis using inv that by simp
  qed
  have vals: "snd (encode_bitmask grid) = filter (\<lambda>v. v \<noteq> 0) grid"
    using inv by blast
  have cnt: "count_set_bits (fst (encode_bitmask grid)) = length (snd (encode_bitmask grid))"
    using inv by blast
  have rng: "1 \<le> unat v \<and> unat v \<le> 255" if "v \<in> set (snd (encode_bitmask grid))" for v
  proof -
    have "v \<noteq> 0" using that vals by simp
    then have "unat v \<noteq> 0" by (simp add: unat_eq_0)
    moreover have "unat v < 2 ^ 8" using unsigned_less [of v, where ?'a = nat] by simp
    ultimately show ?thesis by simp
  qed
  show ?thesis using len bits vals cnt rng encode_bitmask_example by blast
qed

theorem bitmask_encoding_correct_witness:
  "7 < length [42, 0, 0, 0, 0, 0, 0, 84, 99, 0, 0, 0, 0, 0, 0, 0 :: u8]
   \<and> bit (fst (encode_bitmask [42, 0, 0, 0, 0, 0, 0, 84, 99, 0, 0, 0, 0, 0, 0, 0]) ! (7 div 8))
         (7 - 7 mod 8)
   \<and> 84 \<in> set (snd (encode_bitmask [42, 0, 0, 0, 0, 0, 0, 84, 99, 0, 0, 0, 0, 0, 0, 0]))
   \<and> 1 \<le> unat (84 :: u8) \<and> unat (84 :: u8) \<le> 255"
proof -
  let ?G = "[42, 0, 0, 0, 0, 0, 0, 84, 99, 0, 0, 0, 0, 0, 0, 0 :: u8]"
  have l: "7 < length ?G" by simp
  have nz: "?G ! 7 \<noteq> 0" by simp
  from bitmask_encoding_correct [of ?G]
  have b: "\<forall>i < length ?G. bit (fst (encode_bitmask ?G) ! (i div 8)) (7 - i mod 8) \<longleftrightarrow> ?G ! i \<noteq> 0"
    and v: "snd (encode_bitmask ?G) = filter (\<lambda>v. v \<noteq> 0) ?G"
    and r: "\<forall>v \<in> set (snd (encode_bitmask ?G)). 1 \<le> unat v \<and> unat v \<le> 255"
    by blast+
  have m: "84 \<in> set (snd (encode_bitmask ?G))" unfolding v by simp
  from b l nz have "bit (fst (encode_bitmask ?G) ! (7 div 8)) (7 - 7 mod 8)" by blast
  with l m r show ?thesis by blast
qed

section \<open>Properties of single-precision rounding and of the quantization\<close>

text \<open>
  Rounding to binary32 changes a value below \<open>2 powi 128\<close> by at most the relative error
  \<open>2 powi (-24)\<close> plus the absolute error \<open>2 powi (-150)\<close> of the subnormal range.
\<close>

lemma round_half_even_error: "\<bar>of_int (round_half_even y) - y\<bar> \<le> 1/2"
  unfolding round_half_even_def Let_def by (auto simp: abs_if) linarith+

lemma float_exponent_bounds:
  assumes "\<bar>x\<bar> < 2 powi 128"
  shows "-126 \<le> float_exponent x" "float_exponent x \<le> 127"
    "\<bar>x\<bar> < 2 powi (float_exponent x + 1)"
    "-126 < float_exponent x \<Longrightarrow> 2 powi (float_exponent x) \<le> \<bar>x\<bar>"
proof -
  let ?P = "\<lambda>e::int. \<bar>x\<bar> < 2 powi (e + 1)"
  define es :: "int list" where "es = [-126..127]"
  have len: "length es = 254" unfolding es_def length_upto by simp
  have nth: "es ! k = -126 + int k" if "k < 254" for k
    unfolding es_def using that by (intro nth_upto) simp
  have "?P 127" using assms by simp
  moreover have "(127::int) \<in> set es" unfolding es_def set_upto by simp
  ultimately have "List.find ?P es \<noteq> None"
    unfolding find_None_iff by blast
  then obtain e where e: "List.find ?P es = Some e"
    by (meson option.exhaust)
  have "float_exponent x = (case List.find ?P es of Some e \<Rightarrow> e | None \<Rightarrow> 128)"
    unfolding float_exponent_def es_def by (rule refl)
  then have fe: "float_exponent x = e" by (simp only: e option.case)
  from e obtain i where i: "i < length es" "?P (es ! i)"
    "e = es ! i" "\<forall>j<i. \<not> ?P (es ! j)"
    unfolding find_Some_iff by blast
  have ei: "e = -126 + int i" using i(1,3) nth len by simp
  show "-126 \<le> float_exponent x" "float_exponent x \<le> 127"
    using ei i(1) len fe by simp_all
  show "\<bar>x\<bar> < 2 powi (float_exponent x + 1)" using i(2,3) fe by simp
  show "2 powi (float_exponent x) \<le> \<bar>x\<bar>" if "-126 < float_exponent x"
  proof -
    from that fe ei have "0 < i" by simp
    then obtain j where j: "i = Suc j" by (cases i) auto
    then have "j < i" "j < 254" using i(1) len by simp_all
    then have "\<not> ?P (-126 + int j)" using i(4) nth by auto
    moreover have "-126 + int j + 1 = e" using ei j by simp
    ultimately show ?thesis using fe by (simp add: not_less)
  qed
qed

lemma fl_error:
  assumes "\<bar>x\<bar> < 2 powi 128"
  shows "\<bar>fl x - x\<bar> \<le> \<bar>x\<bar> / 2 ^ 24 + 1 / 2 ^ 150"
proof -
  let ?e = "float_exponent x"
  let ?q = "(2::real) powi (?e - 23)"
  have q: "0 < ?q" by simp
  have "fl x - x = ?q * (of_int (round_half_even (x / ?q)) - x / ?q)"
    using q by (simp add: fl_def Let_def algebra_simps)
  then have "\<bar>fl x - x\<bar> = ?q * \<bar>of_int (round_half_even (x / ?q)) - x / ?q\<bar>"
    using q by (simp add: abs_mult)
  also have "\<dots> \<le> ?q * (1/2)"
    using round_half_even_error [of "x / ?q"] q by (intro mult_left_mono) simp_all
  finally have err: "\<bar>fl x - x\<bar> \<le> ?q / 2" by simp
  show ?thesis
  proof (cases "-126 < ?e")
    case True
    have "?q / 2 = 2 powi ?e / 2 ^ 24"
      by (simp add: power_int_diff)
    also have "\<dots> \<le> \<bar>x\<bar> / 2 ^ 24"
      using float_exponent_bounds(4) [OF assms True] by (simp add: divide_right_mono)
    finally show ?thesis using err by simp
  next
    case False
    then have "?e = -126" using float_exponent_bounds(1) [OF assms] by simp
    then have "?q / 2 = 1 / 2 ^ 150" by (simp add: power_int_minus field_simps)
    with err have "\<bar>fl x - x\<bar> \<le> 1 / 2 ^ 150" by (simp only:)
    moreover have "0 \<le> \<bar>x\<bar> / 2 ^ 24" by simp
    ultimately show ?thesis by linarith
  qed
qed


text \<open>
  The binade of a value determines its rounding; instantiated for the binades
  \<open>-9, \<dots>, 10\<close> these equations let the simplifier evaluate \<open>fl\<close> on numerals.
\<close>

lemma float_exponent_eqI:
  assumes "-126 < e" "e \<le> 127" "2 powi e \<le> \<bar>x\<bar>" "\<bar>x\<bar> < 2 powi (e + 1)"
  shows "float_exponent x = e"
proof -
  have "(2::real) powi (e + 1) \<le> 2 powi 128"
    using assms(2) by (intro power_int_increasing) simp_all
  then have big: "\<bar>x\<bar> < 2 powi 128" using assms(4) by linarith
  note b = float_exponent_bounds [OF big]
  let ?f = "float_exponent x"
  have "\<not> ?f < e"
  proof
    assume "?f < e"
    then have "(2::real) powi (?f + 1) \<le> 2 powi e"
      by (intro power_int_increasing) simp_all
    with b(3) assms(3) show False by linarith
  qed
  moreover have "\<not> e < ?f"
  proof
    assume l: "e < ?f"
    then have "-126 < ?f" using assms(1) by simp
    from b(4) [OF this] have "2 powi ?f \<le> \<bar>x\<bar>" .
    moreover have "(2::real) powi (e + 1) \<le> 2 powi ?f"
      using l by (intro power_int_increasing) simp_all
    ultimately show False using assms(4) by linarith
  qed
  ultimately show ?thesis by simp
qed

lemma fl_eval:
  assumes "-126 < e" "e \<le> 127" "2 powi e \<le> \<bar>x\<bar>" "\<bar>x\<bar> < 2 powi (e + 1)"
  shows "fl x = 2 powi (e - 23) * of_int (round_half_even (x / 2 powi (e - 23)))"
  by (simp add: fl_def Let_def float_exponent_eqI [OF assms])


lemma fl_zero: "fl 0 = 0"
  by (simp add: fl_def round_half_even_def)

lemmas fl_binades =
  fl_eval [of "-9"] fl_eval [of "-8"] fl_eval [of "-7"] fl_eval [of "-6"] fl_eval [of "-5"]
  fl_eval [of "-4"] fl_eval [of "-3"] fl_eval [of "-2"] fl_eval [of "-1"] fl_eval [of 0]
  fl_eval [of 1] fl_eval [of 2] fl_eval [of 3] fl_eval [of 4] fl_eval [of 5] fl_eval [of 6]
  fl_eval [of 7] fl_eval [of 8] fl_eval [of 9] fl_eval [of 10] fl_eval [of 11] fl_eval [of 12]

lemma fl_error_small:
  assumes "\<bar>y\<bar> \<le> 10000"
  shows "\<bar>fl y - y\<bar> \<le> \<bar>y\<bar> / 2 ^ 24 + 1 / 2 ^ 150"
proof -
  have "(10000::real) < 2 powi 128" by simp
  with assms have "\<bar>y\<bar> < 2 powi 128" by linarith
  then show ?thesis by (rule fl_error)
qed

lemma c_round_error: "\<bar>of_int (c_round y) - y\<bar> \<le> 1/2"
  unfolding c_round_def by (auto simp: abs_if) linarith+

text \<open>
  Round trip for any parameters whose difference is a binary32 value between 1 and 1000
  with \<open>\<bar>min\<bar> \<le> max - min\<close>: every rounding of the source is bounded by \<open>fl_error\<close>,
  the quantized value is within \<open>1/2 + 10\<^sup>-\<^sup>4\<close> of the linear image of \<open>x\<close>, and the
  dequantized value within one quantum of \<open>x\<close>.
\<close>

lemma quantize_roundtrip_generic:
  fixes mn mx x :: real
  defines "R \<equiv> mx - mn"
  assumes exact: "fl R = R"
    and R1: "1 \<le> R" and R2: "R \<le> 1000" and mnR: "\<bar>mn\<bar> \<le> R"
    and x: "mn \<le> x" "x \<le> mx"
  shows "\<exists>q. quantize_value x mn mx = Some q
           \<and> \<bar>real (unat q) - (x - mn) / (mx - mn) * 255\<bar> \<le> 1/2 + 1/10000
           \<and> \<bar>dequantize_value q mn mx - x\<bar> \<le> (mx - mn) / 255"
proof -
  define u :: real where "u = 1 / 2 ^ 24"
  define s :: real where "s = 1 / 2 ^ 150"
  have u: "0 < u" "u \<le> 1 / 16000000" by (simp_all add: u_def)
  have s: "0 < s" "s \<le> 1 / 1000000000000" by (simp_all add: s_def)
  have flerr: "\<bar>fl y - y\<bar> \<le> u * \<bar>y\<bar> + s" if "\<bar>y\<bar> \<le> 10000" for y
    using fl_error_small [OF that] by (simp add: u_def s_def)
  define t where "t = (x - mn) / R"
  have Rpos: "0 < R" using R1 by simp
  have t01: "0 \<le> t" "t \<le> 1" using x Rpos by (simp_all add: t_def R_def)
  have xt: "x - mn = t * R" using Rpos by (simp add: t_def)
  \<comment> \<open>quantization\<close>
  define a where "a = fl (x - mn)"
  have xm: "\<bar>x - mn\<bar> \<le> R" using x by (simp add: R_def)
  have a: "\<bar>a - (x - mn)\<bar> \<le> u * R + s"
  proof -
    have "\<bar>a - (x - mn)\<bar> \<le> u * \<bar>x - mn\<bar> + s"
      unfolding a_def using xm R2 by (intro flerr) simp
    also have "u * \<bar>x - mn\<bar> \<le> u * R" using xm u by (intro mult_left_mono) simp_all
    finally show ?thesis by simp
  qed
  have aR: "\<bar>a / R - t\<bar> \<le> u + s"
  proof -
    have "a / R - t = (a - (x - mn)) / R" using Rpos by (simp add: t_def diff_divide_distrib)
    then have "\<bar>a / R - t\<bar> = \<bar>a - (x - mn)\<bar> / R" using Rpos by (simp add: abs_divide)
    also have "\<dots> \<le> (u * R + s) / R" using a Rpos by (simp add: divide_right_mono)
    also have "\<dots> = u + s / R" using Rpos by (simp add: add_divide_distrib)
    also have "s / R \<le> s" using R1 s by (simp add: divide_le_eq)
    finally show ?thesis by simp
  qed
  have aR2: "\<bar>a / R\<bar> \<le> 2" using aR t01 u s by linarith
  define b where "b = fl (a / R)"
  have b: "\<bar>b - t\<bar> \<le> 3 * u + 2 * s"
  proof -
    have "\<bar>b - a / R\<bar> \<le> u * \<bar>a / R\<bar> + s"
      unfolding b_def using aR2 by (intro flerr) simp
    also have "u * \<bar>a / R\<bar> \<le> u * 2" using aR2 u by (intro mult_left_mono) simp_all
    finally have "\<bar>b - a / R\<bar> \<le> 2 * u + s" by simp
    then show ?thesis using aR by linarith
  qed
  define c where "c = (if b < 0 then 0 else if b > 1 then 1 else b)"
  have c01: "0 \<le> c" "c \<le> 1" by (simp_all add: c_def)
  have c: "\<bar>c - t\<bar> \<le> 3 * u + 2 * s" using b t01 by (auto simp: c_def abs_if split: if_splits)
  define d where "d = fl (c * 255)"
  have d: "\<bar>d - 255 * t\<bar> \<le> 1020 * u + 511 * s"
  proof -
    have "\<bar>d - c * 255\<bar> \<le> u * \<bar>c * 255\<bar> + s"
      unfolding d_def using c01 by (intro flerr) (simp add: abs_mult)
    also have "u * \<bar>c * 255\<bar> \<le> u * 255" using c01 u by (intro mult_left_mono) (simp_all add: abs_mult)
    finally have "\<bar>d - c * 255\<bar> \<le> 255 * u + s" by simp
    then show ?thesis using c by linarith
  qed
  define q where "q = c_round d"
  have qd: "\<bar>of_int q - d\<bar> \<le> 1/2" unfolding q_def by (rule c_round_error)
  have qt: "\<bar>of_int q - 255 * t\<bar> \<le> 1/2 + (1020 * u + 511 * s)" using qd d by linarith
  have "-1 < (of_int q :: real)" "(of_int q :: real) < 256" using qt t01 u s by linarith+
  then have q255: "0 \<le> q" "q \<le> 255" by linarith+
  define w :: u8 where "w = word_of_int q"
  have uw: "unat w = nat q"
    unfolding w_def using q255 by (simp add: unat_eq_nat_uint uint_word_of_int take_bit_int_eq_self)
  then have rw: "real (unat w) = of_int q" using q255 by simp
  have quant: "quantize_value x mn mx = Some w"
    using Rpos exact
    by (simp add: quantize_value_def Let_def R_def [symmetric] a_def [symmetric]
        b_def [symmetric] c_def [symmetric] d_def [symmetric] q_def [symmetric] w_def)
  have near: "\<bar>real (unat w) - (x - mn) / (mx - mn) * 255\<bar> \<le> 1/2 + 1/10000"
  proof -
    have h: "(x - mn) / (mx - mn) * 255 = 255 * t" by (simp add: t_def R_def)
    show ?thesis unfolding h rw using qt u s by linarith
  qed
  \<comment> \<open>dequantization\<close>
  define g where "g = (of_int q :: real) / 255"
  have g01: "0 \<le> g" "g \<le> 1" using q255 by (simp_all add: g_def)
  define e1 where "e1 = fl g"
  have e1: "\<bar>e1 - g\<bar> \<le> u + s"
  proof -
    have "\<bar>e1 - g\<bar> \<le> u * \<bar>g\<bar> + s" unfolding e1_def using g01 by (intro flerr) simp
    also have "u * \<bar>g\<bar> \<le> u * 1" using g01 u by (intro mult_left_mono) simp_all
    finally show ?thesis by simp
  qed
  have e1b: "\<bar>e1\<bar> \<le> 2" using e1 g01 u s by linarith
  define e2 where "e2 = fl (e1 * R)"
  have e1R: "\<bar>e1 * R\<bar> \<le> 2 * R" using e1b Rpos by (simp add: abs_mult)
  have e2a: "\<bar>e2 - e1 * R\<bar> \<le> 2 * u * R + s"
  proof -
    have "\<bar>e2 - e1 * R\<bar> \<le> u * \<bar>e1 * R\<bar> + s"
      unfolding e2_def using e1R R2 by (intro flerr) simp
    also have "u * \<bar>e1 * R\<bar> \<le> u * (2 * R)" using e1R u by (intro mult_left_mono) simp_all
    finally show ?thesis by (simp add: mult.assoc)
  qed
  have e1g: "\<bar>e1 * R - g * R\<bar> \<le> (u + s) * R"
  proof -
    have "\<bar>e1 * R - g * R\<bar> = \<bar>e1 - g\<bar> * R" using Rpos by (simp add: abs_mult left_diff_distrib [symmetric])
    also have "\<dots> \<le> (u + s) * R" using e1 Rpos by (intro mult_right_mono) simp_all
    finally show ?thesis .
  qed
  have gt: "\<bar>g * R - t * R\<bar> \<le> (1/2 + (1020 * u + 511 * s)) / 255 * R"
  proof -
    have "g - t = (of_int q - 255 * t) / 255" by (simp add: g_def diff_divide_distrib)
    then have "\<bar>g - t\<bar> = \<bar>of_int q - 255 * t\<bar> / 255" by (simp only: abs_divide abs_numeral)
    also have "\<dots> \<le> (1/2 + (1020 * u + 511 * s)) / 255"
      using qt by (intro divide_right_mono) simp_all
    finally have "\<bar>g - t\<bar> \<le> (1/2 + (1020 * u + 511 * s)) / 255" .
    moreover have "\<bar>g * R - t * R\<bar> = \<bar>g - t\<bar> * R"
      using Rpos by (simp add: abs_mult left_diff_distrib [symmetric])
    ultimately show ?thesis using Rpos by (simp add: mult_right_mono)
  qed
  define e3 where "e3 = fl (mn + e2)"
  define uR where "uR = u * R"
  define sR where "sR = s * R"
  have uR: "u \<le> uR" "uR \<le> R / 16000000"
  proof -
    show "u \<le> uR" unfolding uR_def using u R1 by (simp add: mult_le_cancel_left1)
    have "u * R \<le> (1 / 16000000) * R" using u Rpos by (intro mult_right_mono) simp_all
    then show "uR \<le> R / 16000000" by (simp add: uR_def)
  qed
  have sR: "s \<le> sR" "sR \<le> R / 1000000000000"
  proof -
    show "s \<le> sR" unfolding sR_def using s R1 by (simp add: mult_le_cancel_left1)
    have "s * R \<le> (1 / 1000000000000) * R" using s Rpos by (intro mult_right_mono) simp_all
    then show "sR \<le> R / 1000000000000" by (simp add: sR_def)
  qed
  have e2a': "\<bar>e2 - e1 * R\<bar> \<le> 2 * uR + s" using e2a by (simp add: uR_def mult.assoc)
  have e1g': "\<bar>e1 * R - g * R\<bar> \<le> uR + sR" using e1g by (simp add: uR_def sR_def algebra_simps)
  have gt': "\<bar>g * R - t * R\<bar> \<le> R / 510 + 4 * uR + 3 * sR"
  proof -
    have "(1/2 + (1020 * u + 511 * s)) / 255 * R = R / 510 + 4 * uR + (511 / 255) * sR"
      by (simp add: uR_def sR_def field_simps)
    moreover have "(511 / 255) * sR \<le> 3 * sR" using sR s by simp
    ultimately show ?thesis using gt by linarith
  qed
  have e2b: "\<bar>e2\<bar> \<le> 2 * R + 1" using e2a' e1R uR sR s R2 by linarith
  have me2: "\<bar>mn + e2\<bar> \<le> 3 * R + 1" using e2b mnR by linarith
  have e3: "\<bar>e3 - (mn + e2)\<bar> \<le> 4 * uR + s"
  proof -
    have "\<bar>e3 - (mn + e2)\<bar> \<le> u * \<bar>mn + e2\<bar> + s"
      unfolding e3_def using me2 R2 by (intro flerr) simp
    also have "u * \<bar>mn + e2\<bar> \<le> u * (3 * R + 1)" using me2 u by (intro mult_left_mono) simp_all
    also have "\<dots> = 3 * uR + u" by (simp add: uR_def algebra_simps)
    finally show ?thesis using uR by linarith
  qed
  have deq: "dequantize_value w mn mx = e3"
    unfolding dequantize_value_def Let_def R_def [symmetric] exact rw g_def [symmetric]
      e1_def [symmetric] e2_def [symmetric] e3_def [symmetric] by (rule refl)
  have "\<bar>e3 - x\<bar> \<le> R / 255"
  proof -
    have "x = mn + t * R" using xt by simp
    then have "\<bar>e3 - x\<bar> \<le> \<bar>e3 - (mn + e2)\<bar> + \<bar>e2 - e1 * R\<bar> + \<bar>e1 * R - g * R\<bar>
                 + \<bar>g * R - t * R\<bar>" by linarith
    then show ?thesis using e3 e2a' e1g' gt' uR sR s Rpos by linarith
  qed
  then have final: "\<bar>dequantize_value w mn mx - x\<bar> \<le> (mx - mn) / 255"
    by (simp add: deq R_def)
  show ?thesis using quant near final by blast
qed


lemma fl_exact_ranges:
  "fl 200 = 200" "fl 64 = 64" "fl 16 = 16" "fl 360 = 360" "fl (253 / 2) = 253 / 2"
  "fl (11 / 10) = 9227469 / 8388608" "fl (9227469 / 8388608) = 9227469 / 8388608"
  by (simp_all add: fl_binades round_half_even_def power_int_minus)

text \<open>
  Claim C4 says that \<open>quantize_value\<close> rounds the linear image of \<open>x\<close> to the nearest
  integer. The image is evaluated in single precision, so the result is the integer
  nearest to the evaluated image. What holds for every product's quantization parameters
  \<open>(min, max)\<close> and every \<open>x\<close> with \<open>min \<le> x \<le> max\<close>: \<open>quantize_value\<close> returns an integer
  of \<open>[0, 255]\<close> within \<open>1/2 + 10\<^sup>-\<^sup>4\<close> of the linear image \<open>(x - min) / (max - min) * 255\<close>,
  and the inverse linear map recovers a value within one quantum \<open>(max - min) / 255\<close> of
  \<open>x\<close>.
\<close>

theorem quantize_roundtrip_within_quantum:
  assumes "value_min (get_quant_params product) \<le> x"
    and "x \<le> value_max (get_quant_params product)"
  shows "\<exists>q. quantize_value x (value_min (get_quant_params product))
                 (value_max (get_quant_params product)) = Some q
           \<and> \<bar>real (unat q) - (x - value_min (get_quant_params product))
                 / (value_max (get_quant_params product) - value_min (get_quant_params product))
                 * 255\<bar> \<le> 1/2 + 1/10000
           \<and> \<bar>dequantize_value q (value_min (get_quant_params product))
                 (value_max (get_quant_params product)) - x\<bar>
                 \<le> (value_max (get_quant_params product) - value_min (get_quant_params product))
                     / 255"
proof -
  define mn where "mn = value_min (get_quant_params product)"
  define mx where "mx = value_max (get_quant_params product)"
  have cases: "(mn, mx) \<in> {(-100, 100), (0, 64), (-8, 8), (0, 360), (0, 9227469 / 8388608),
                            (-32, 189 / 2)}"
    by (simp add: mn_def mx_def get_quant_params_def fl_exact_ranges)
  have "fl (mx - mn) = mx - mn \<and> 1 \<le> mx - mn \<and> mx - mn \<le> 1000 \<and> \<bar>mn\<bar> \<le> mx - mn"
  proof -
    have table: "P mn mx" if "P (-100) 100" "P 0 64" "P (-8) 8" "P 0 360"
      "P 0 (9227469 / 8388608)" "P (-32) (189 / 2)" for P :: "real \<Rightarrow> real \<Rightarrow> bool"
      using cases that by (elim insertE) (simp_all only: prod.inject empty_iff)
    show ?thesis
      by (rule table [where P = "\<lambda>mn mx. fl (mx - mn) = mx - mn \<and> 1 \<le> mx - mn
            \<and> mx - mn \<le> 1000 \<and> \<bar>mn\<bar> \<le> mx - mn"])
         (simp_all add: fl_exact_ranges)
  qed
  then show ?thesis
    using quantize_roundtrip_generic [of mx mn x] assms
    unfolding mn_def [symmetric] mx_def [symmetric] by blast
qed

theorem quantize_roundtrip_within_quantum_witness:
  "value_min (get_quant_params ''velocity'') \<le> 25
   \<and> 25 \<le> value_max (get_quant_params ''velocity'')
   \<and> (\<exists>q. quantize_value 25 (-100) 100 = Some q
          \<and> \<bar>real (unat q) - (25 - (-100)) / (100 - (-100)) * 255\<bar> \<le> 1/2 + 1/10000
          \<and> \<bar>dequantize_value q (-100) 100 - 25\<bar> \<le> (100 - (-100)) / 255)"
proof -
  have p: "value_min (get_quant_params ''velocity'') = -100"
    "value_max (get_quant_params ''velocity'') = 100"
    by (simp_all add: get_quant_params_def)
  have h: "value_min (get_quant_params ''velocity'') \<le> 25"
    "25 \<le> value_max (get_quant_params ''velocity'')"
    by (simp_all add: p)
  from quantize_roundtrip_within_quantum [OF h] h show ?thesis
    unfolding p by blast
qed

text \<open>
  Claim C4 as stated fails next to a halfway point. For spectrum width (\<open>[0, 64]\<close>) and
  the binary32 value \<open>x = 8454401 / 2\<^sup>1\<^sup>8\<close> (about 32.2500038) the linear image is
  \<open>2155872255 / 2\<^sup>2\<^sup>4\<close> (about 128.49999994), whose nearest integer is 128; the product
  \<open>normalized * 255.0f\<close> rounds to 128.5 and \<open>std::round\<close> gives 129.
\<close>

theorem quantize_value_not_nearest:
  "value_min (get_quant_params ''spectrum_width'') = 0
   \<and> value_max (get_quant_params ''spectrum_width'') = 64
   \<and> fl (8454401 / 262144) = 8454401 / 262144
   \<and> (0 :: real) \<le> 8454401 / 262144 \<and> (8454401 / 262144 :: real) \<le> 64
   \<and> quantize_value (8454401 / 262144) 0 64 = Some 129
   \<and> (8454401 / 262144 - 0) / (64 - 0) * 255 = (2155872255 / 16777216 :: real)
   \<and> \<bar>128 - (2155872255 / 16777216 :: real)\<bar> < 1 / 2
   \<and> \<bar>129 - (2155872255 / 16777216 :: real)\<bar> > 1 / 2"
  by (simp add: get_quant_params_def quantize_value_def c_round_def fl_zero fl_binades
      round_half_even_def power_int_minus)

section \<open>Properties of the bounds checker\<close>

text \<open>
  When the sum \<open>ptr_offset + required_size\<close> does not wrap, the checker accepts exactly
  the non-zero offsets whose block lies inside the payload.
\<close>

lemma safe_pointer_dereference_no_wrap:
  assumes "unat ptr_offset + unat required_size < 2 ^ 64"
  shows "safe_pointer_dereference ptr_offset required_size payload_size \<longleftrightarrow>
           ptr_offset \<noteq> 0 \<and> unat ptr_offset + unat required_size \<le> unat payload_size"
proof -
  have "unat (ptr_offset + required_size) = unat ptr_offset + unat required_size"
    using assms by (simp add: unat_add_lem [THEN iffD1])
  then show ?thesis
    by (auto simp: safe_pointer_dereference_def word_less_nat_alt)
qed

text \<open>
  Claim C3 states that the checker returns true iff \<open>offset \<noteq> 0\<close> and
  \<open>offset + required_size \<le> payload_size\<close> for all arguments. The third test of the
  source adds in \<open>size_t\<close>: for offset 1, required size \<open>2 ^ 64 - 1\<close> and payload size 5
  the sum wraps to 0, no test fires and the checker returns true, although
  \<open>1 + (2 ^ 64 - 1) > 5\<close>.
\<close>

theorem safe_pointer_dereference_wraps:
  "safe_pointer_dereference 1 0xFFFFFFFFFFFFFFFF 5
   \<and> \<not> (unat (1 :: size_t) + unat (0xFFFFFFFFFFFFFFFF :: size_t) \<le> unat (5 :: size_t))"
  by (simp add: safe_pointer_dereference_def)

section \<open>Properties of the segment reassembler\<close>

lemma add_segments_snoc:
  "add_segments (cs @ [(h, d)]) m =
     (case add_segments cs m of
        Inl e \<Rightarrow> Inl e
      | Inr (rs, m') \<Rightarrow>
          (case add_segment h d m' of
             Inl e \<Rightarrow> Inl e
           | Inr (r, m'') \<Rightarrow> Inr (rs @ [r], m'')))"
  by (induction cs arbitrary: m) (auto split: sum.splits prod.splits)

lemma replicate_update_same: "(replicate n x)[i := x] = replicate n x"
  by (induction n arbitrary: i) (simp_all add: list_update_code split: nat.split)

lemma add_segment_empty_data_step:
  assumes n: "1 < num_segments h" "num_segments h \<le> 2000"
    and k: "1 \<le> segment_num h" "segment_num h \<le> num_segments h"
    and info: "m (sequence_num h) = Some info" "segments info \<noteq> []"
    and slot: "unat (segment_num h) - 1 < length (segments info)"
              "segments info ! (unat (segment_num h) - 1) = []"
  shows "add_segment h [] m =
     Inr (if segments_received info + 1 = num_segments h
          then (Some \<lparr>sm_sequence_num = sequence_num h, sm_type = mi_type info,
                       sm_data = concat (segments info)\<rparr>,
                m(sequence_num h := None))
          else (None, m(sequence_num h \<mapsto> info\<lparr>segments_received := segments_received info + 1\<rparr>)))"
proof -
  have a: "(num_segments h \<le> 1) = False" "(2000 < num_segments h) = False"
    "(segment_num h = 0) = False" "(num_segments h < segment_num h) = False"
    using n k by (auto simp: word_le_nat_alt word_less_nat_alt)
  have upd: "(segments info)[unat (segment_num h) - 1 := []] = segments info"
    using slot(2) by (metis list_update_id)
  show ?thesis
    unfolding add_segment_def Let_def using info slot upd
    by (simp add: a)
qed

text \<open>
  Claim C10. A slot of a pending multi-segment message counts as occupied only when its
  stored byte vector is non-empty. Submitting a segment whose data portion is empty
  therefore leaves every slot empty while \<open>segments_received\<close> is incremented
  (\<open>add_segment_empty_data_step\<close> is the single step for any pending entry); from a
  segmenter with no entry for the sequence number, submitting one and the same
  zero-length segment index \<open>num_segments\<close> times returns \<open>false\<close> for the first
  \<open>num_segments - 1\<close> calls, keeping all slots empty and counting each call, and the
  last call emits a completed (empty) message and evicts the entry, although only one
  segment index was ever supplied.
\<close>

theorem zero_length_segment_repeats:
  assumes n: "1 < num_segments h" "num_segments h \<le> 2000"
    and k: "1 \<le> segment_num h" "segment_num h \<le> num_segments h"
    and fresh: "m (sequence_num h) = None"
  shows "(\<forall>j. 1 \<le> j \<and> j < unat (num_segments h) \<longrightarrow>
            add_segments (replicate j (h, [])) m =
              Inr (replicate j None,
                   m(sequence_num h \<mapsto>
                       \<lparr>mi_type = msg_type h, segments = replicate (unat (num_segments h)) [],
                        segments_received = of_nat j, total_data_size = 0\<rparr>)))
       \<and> add_segments (replicate (unat (num_segments h)) (h, [])) m =
            Inr (replicate (unat (num_segments h) - 1) None @
                   [Some \<lparr>sm_sequence_num = sequence_num h, sm_type = msg_type h, sm_data = []\<rparr>],
                 m)"
proof -
  let ?n = "unat (num_segments h)"
  define inf where "inf j = \<lparr>mi_type = msg_type h, segments = replicate ?n ([] :: u8 list),
                  segments_received = of_nat j, total_data_size = 0\<rparr>" for j
  define st where "st j = m(sequence_num h \<mapsto> inf j)" for j
  have n2: "2 \<le> ?n" "?n \<le> 2000"
    using n by (simp_all add: word_less_nat_alt word_le_nat_alt)
  have kn: "1 \<le> unat (segment_num h)" "unat (segment_num h) \<le> ?n"
    using k by (simp_all add: word_le_nat_alt)
  have a: "(num_segments h \<le> 1) = False" "(2000 < num_segments h) = False"
    "(segment_num h = 0) = False" "(num_segments h < segment_num h) = False"
    using n k by (auto simp: word_le_nat_alt word_less_nat_alt)
  have recv: "(of_nat j + 1 :: u16) = num_segments h \<longleftrightarrow> Suc j = ?n" if "j < ?n" for j
  proof -
    have e: "(of_nat j + 1 :: u16) = of_nat (Suc j)" by simp
    have u: "unat (of_nat (Suc j) :: u16) = Suc j"
      unfolding unat_of_nat using that n2 by simp
    show ?thesis by (simp only: e word_unat_eq_iff u)
  qed
  have idx: "(?n \<le> unat (segment_num h) - 1) = False"
    using kn n2 by auto
  have first: "add_segment h [] m = Inr (None, st 1)"
    unfolding add_segment_def Let_def MessageInfo_default_def st_def inf_def
    using fresh n2 recv [of 0] idx by (simp add: a replicate_update_same)
  have later: "add_segment h [] (st j) =
      Inr (if Suc j = ?n
           then (Some \<lparr>sm_sequence_num = sequence_num h, sm_type = msg_type h, sm_data = []\<rparr>, m)
           else (None, st (Suc j)))" if "j < ?n" for j
  proof -
    have p1: "(st j) (sequence_num h) = Some (inf j)" by (simp add: st_def)
    have p2: "segments (inf j) \<noteq> []" using n2 by (auto simp: inf_def)
    have p3: "unat (segment_num h) - 1 < length (segments (inf j))"
      using kn n2 by (auto simp: inf_def)
    have p4: "segments (inf j) ! (unat (segment_num h) - 1) = []"
      using p3 by (simp add: inf_def)
    have c: "concat (segments (inf j)) = []" "mi_type (inf j) = msg_type h"
      by (simp_all add: inf_def)
    have d: "(st j)(sequence_num h := None) = m" using fresh by (auto simp: st_def)
    have e: "(st j)(sequence_num h \<mapsto> (inf j)\<lparr>segments_received := segments_received (inf j) + 1\<rparr>)
               = st (Suc j)" by (simp add: st_def inf_def add.commute)
    have r: "(segments_received (inf j) + 1 = num_segments h) = (Suc j = ?n)"
      using recv [OF that] by (simp add: inf_def)
    note stp = add_segment_empty_data_step [where h = h and m = "st j" and info = "inf j",
        OF n k p1 p2 p3 p4]
    show ?thesis unfolding stp c d e r by simp
  qed
  have run: "add_segments (replicate j (h, [])) m = Inr (replicate j None, st j)"
    if "1 \<le> j" "j < ?n" for j
    using that
  proof (induction j)
    case 0
    then show ?case by simp
  next
    case (Suc j)
    show ?case
    proof (cases "j = 0")
      case True
      have "add_segments [(h, [])] m = Inr ([None], st 1)"
        by (simp add: first)
      then show ?thesis unfolding True by simp
    next
      case False
      then have IH: "add_segments (replicate j (h, [])) m = Inr (replicate j None, st j)"
        using Suc by simp
      have "replicate (Suc j) (h, []) = replicate j (h, []) @ [(h, ([] :: u8 list))]"
        by (simp add: replicate_append_same)
      moreover have "replicate (Suc j) None = replicate j None @ [None :: SegmentedMessage option]"
        by (simp add: replicate_append_same)
      ultimately show ?thesis
        using IH later [of j] Suc.prems
        by (simp add: add_segments_snoc del: replicate_Suc replicate.simps)
    qed
  qed
  have fin: "add_segments (replicate ?n (h, [])) m =
            Inr (replicate (?n - 1) None @
                   [Some \<lparr>sm_sequence_num = sequence_num h, sm_type = msg_type h, sm_data = []\<rparr>], m)"
  proof -
    obtain j where j: "?n = Suc j" "1 \<le> j" "j < ?n"
      using n2 by (cases ?n) auto
    have "replicate ?n (h, []) = replicate j (h, []) @ [(h, ([] :: u8 list))]"
      unfolding j(1) by (simp add: replicate_append_same)
    then show ?thesis
      using run [OF j(2,3)] later [OF j(3)] j(1)
      by (simp add: add_segments_snoc)
  qed
  show ?thesis using run fin unfolding st_def inf_def by blast
qed


theorem zero_length_segment_repeats_witness:
  "add_segments (replicate 2 (seg_header 31 7 3 2, [])) Map.empty =
     Inr (replicate 2 None,
          [7 \<mapsto> \<lparr>mi_type = 31, segments = replicate 3 [], segments_received = 2,
                   total_data_size = 0\<rparr>])
   \<and> add_segments (replicate 3 (seg_header 31 7 3 2, [])) Map.empty =
       Inr (replicate 2 None @ [Some \<lparr>sm_sequence_num = 7, sm_type = 31, sm_data = []\<rparr>],
            Map.empty)"
proof -
  let ?h = "seg_header 31 7 3 2"
  have n: "1 < num_segments ?h" "num_segments ?h \<le> 2000"
    and k: "1 \<le> segment_num ?h" "segment_num ?h \<le> num_segments ?h"
    and f: "(Map.empty :: pending_messages) (sequence_num ?h) = None"
    by (simp_all add: seg_header_def)
  have u: "unat (num_segments ?h) = 3" "sequence_num ?h = 7" "msg_type ?h = 31"
    by (simp_all add: seg_header_def)
  from zero_length_segment_repeats [OF n k f, unfolded u]
  show ?thesis by simp
qed

text \<open>
  Claim C2 says that a completed message is emitted iff exactly \<open>num_segments\<close> distinct
  segment indices have been supplied and that a duplicate of a stored segment changes
  nothing. The code tests "slot already stored" by \<open>info.segments[segment_num - 1].empty()\<close>,
  which is also true for a stored segment of length zero (a message of 8 halfwords is a
  bare header and passes the parser's header validation): with \<open>num_segments = 2\<close>,
  supplying segment 1 with an empty data portion twice completes the message although
  segment 2 was never supplied.
\<close>

theorem add_segment_duplicate_empty_completes:
  "map_sum id fst
     (add_segments [(seg_header 31 7 2 1, []), (seg_header 31 7 2 1, [])] Map.empty)
   = Inr [None, Some \<lparr>sm_sequence_num = 7, sm_type = 31, sm_data = []\<rparr>]"
  by code_simp

section \<open>Properties of the discovery pass\<close>

lemma scan_object_key:
  "scan_object env station s key = Inr s' \<Longrightarrow>
     sl_new_last_key s' = sl_new_last_key s \<or> sl_new_last_key s' = key"
  by (auto simp: scan_object_def Let_def split: if_splits sum.splits)

lemma scan_loop_key:
  "scan_objects env station keys s = Inr s' \<Longrightarrow>
     sl_new_last_key s' \<in> insert (sl_new_last_key s) (set keys)"
proof (induction keys arbitrary: s)
  case Nil
  then show ?case by simp
next
  case (Cons k keys)
  from Cons.prems obtain s1 where s1: "scan_object env station s k = Inr s1"
    and rest: "scan_objects env station keys s1 = Inr s'"
    by (auto split: sum.splits)
  from Cons.IH [OF rest] scan_object_key [OF s1]
  show ?case by auto
qed

lemma target_objects_subset:
  "objects \<noteq> [] \<Longrightarrow> set (target_objects_of last_key catchup max_frames objects) \<subseteq> set objects"
  by (auto simp: target_objects_of_def Let_def dest: in_set_dropD)

lemma ListObjectsV2_after:
  assumes "ListObjectsV2 keys prefix start_after = ListOk contents" "k \<in> set contents"
  shows "start_after \<le> k"
proof -
  from assms obtain ks where "contents = take 1000 (sort (remdups
            (filter (\<lambda>k. starts_with k prefix \<and> (start_after = [] \<or> start_after < k)) ks)))"
    by (auto simp: ListObjectsV2_def split: option.splits)
  with assms(2) have "start_after = [] \<or> start_after < k"
    by (auto dest!: in_set_takeD)
  then show ?thesis
  proof
    assume "start_after = []"
    then show ?thesis by simp
  next
    assume "start_after < k"
    then show ?thesis by simp
  qed
qed

lemma scan_body_key:
  assumes "scan_body env station last_key queue0 = (Some k, queue)"
  shows "last_key \<le> k"
proof (cases "ListObjectsV2 (bucket_keys env) (date_prefix env) last_key")
  case ListFailed
  then show ?thesis using assms by (simp add: scan_body_def)
next
  case (ListOk contents)
  show ?thesis
  proof (cases "contents = []")
    case True
    then show ?thesis using assms ListOk by (simp add: scan_body_def)
  next
    case False
    define target where "target = target_objects_of last_key (catchup_enabled env)
                                   (max_frames_per_station env) (sort contents)"
    define visited where "visited = (case stop_after env of None \<Rightarrow> target
                           | Some n \<Rightarrow> take n target)"
    define init where "init = \<lparr>sl_batch = [], sl_queue = queue0, sl_new_last_key = last_key\<rparr>"
    have "set visited \<subseteq> set target"
      by (auto simp: visited_def split: option.splits dest: in_set_takeD)
    also have "\<dots> \<subseteq> set (sort contents)"
    proof -
      have "length (sort contents) = length contents" by simp
      then have "sort contents \<noteq> []" using False by (metis length_0_conv)
      then show ?thesis unfolding target_def by (rule target_objects_subset)
    qed
    finally have vis: "set visited \<subseteq> set contents" by simp
    have body: "scan_body env station last_key queue0
                  = (case scan_objects env station visited init of
                       Inl (e, queue) \<Rightarrow> (None, queue)
                     | Inr s \<Rightarrow>
                         (Some (sl_new_last_key s),
                          if sl_batch s \<noteq> []
                          then sl_queue s @ [\<lparr>db_station = station, db_items = sl_batch s\<rparr>]
                          else sl_queue s))"
      using ListOk False unfolding init_def visited_def target_def
      by (simp add: scan_body_def Let_def)
    show ?thesis
    proof (cases "scan_objects env station visited init")
      case (Inl a)
      then show ?thesis using assms unfolding body by (simp split: prod.splits)
    next
      case (Inr fin)
      then have k: "k = sl_new_last_key fin" using assms unfolding body by simp
      have "sl_new_last_key fin \<in> insert last_key (set visited)"
        using scan_loop_key [OF Inr] by (simp add: init_def)
      then show ?thesis
        using vis ListObjectsV2_after [OF ListOk] unfolding k by auto
    qed
  qed
qed

lemma fetch_frame_for_station_cursor:
  "last_processed_key st s \<le> last_processed_key (fetch_frame_for_station env station st) s"
proof (cases "s3_client_available env")
  case False
  then show ?thesis by (simp add: fetch_frame_for_station_def)
next
  case True
  obtain r queue where b: "scan_body env station (last_processed_key st station)
                             (discovery_queue st) = (r, queue)"
    by (cases "scan_body env station (last_processed_key st station) (discovery_queue st)")
  show ?thesis
  proof (cases r)
    case None
    then show ?thesis using True b by (simp add: fetch_frame_for_station_def)
  next
    case (Some k)
    then have "last_processed_key st station \<le> k"
      using b scan_body_key by blast
    then show ?thesis
      using True b Some by (simp add: fetch_frame_for_station_def write_cursor_def)
  qed
qed

text \<open>
  Passes that do not overlap never lower a cursor: each pass either leaves it or
  replaces it by one of the keys the store listed after it.
\<close>

lemma sequential_passes_nondecreasing:
  "last_processed_key st station \<le> last_processed_key (sequential_passes passes st) station"
proof (induction passes arbitrary: st)
  case Nil
  then show ?case by (simp add: sequential_passes_def)
next
  case (Cons p passes)
  obtain stn env where p: "p = (stn, env)" by (cases p)
  have "last_processed_key st station
          \<le> last_processed_key (fetch_frame_for_station env stn st) station"
    by (rule fetch_frame_for_station_cursor)
  also have "\<dots> \<le> last_processed_key (sequential_passes passes (fetch_frame_for_station env stn st)) station"
    by (rule Cons.IH)
  finally show ?case by (simp add: sequential_passes_def p)
qed

text \<open>
  The cursor-advance scenario: the first pass finds the keys A < B < C, the second pass
  lists A, B, C, D and the cursor ends at D.
\<close>

lemma cursor_scenario:
  "last_processed_key
     (sequential_passes [(''KTLX'', test_env [keyB, keyA, keyC]),
                         (''KTLX'', test_env [keyB, keyA, keyC, keyD])] st0) ''KTLX'' = keyD"
  by code_simp

text \<open>
  A task that a free worker takes from the front of the queue and runs to its end with
  no other event in between acts on the fetcher state as \<open>fetch_frame_for_station\<close>.
\<close>

lemma pass_alone:
  assumes "sc_workers s w = None" "sc_task_queue s = station # rest" "w < sc_pool_size s"
  shows "map_option sc_fetcher (scheduler_run (pass_events w env) s)
           = Some (fetch_frame_for_station env station (sc_fetcher s))"
proof (cases "s3_client_available env")
  case False
  then show ?thesis using assms
    by (simp add: pass_events_def scheduler_step_def fetch_frame_for_station_def)
next
  case True
  obtain r queue where b: "scan_body env station (last_processed_key (sc_fetcher s) station)
                             (discovery_queue (sc_fetcher s)) = (r, queue)"
    by (cases "scan_body env station (last_processed_key (sc_fetcher s) station)
                 (discovery_queue (sc_fetcher s))")
  show ?thesis
  proof (cases r)
    case None
    then show ?thesis using True assms b
      by (simp add: pass_events_def scheduler_step_def set_phase_def fetch_frame_for_station_def)
  next
    case (Some k)
    then show ?thesis using True assms b
      by (simp add: pass_events_def scheduler_step_def set_phase_def fetch_frame_for_station_def
          write_cursor_def)
  qed
qed

text \<open>
  Claim C5 says that the cursor \<open>last_processed_key\<close> of a station never decreases. The
  discovery loop tests \<open>active_scans_\<close> when it enqueues a task, but a task enters
  \<open>active_scans_\<close> only when a worker starts it, so two passes of one station can run at
  the same time; each writes the key it computed from the cursor it read, whatever the
  cursor has become. In the run \<open>overlap_schedule\<close> both passes of KTLX read the empty
  cursor, the first write sets the cursor to key B, and the second write lowers it to
  key A.
\<close>

theorem overlapping_scans_lower_cursor:
  "map_option (cursor_of ''KTLX'') (scheduler_run overlap_until_first_write scheduler_init)
     = Some keyB
   \<and> map_option (cursor_of ''KTLX'') (scheduler_run overlap_schedule scheduler_init) = Some keyA
   \<and> keyA < keyB"
  by code_simp

section \<open>Properties of the decompressor\<close>

declare decompress_ldm_records.simps [simp del]

text \<open>
  The pass-through branch is only reached by inputs shorter than 28 bytes. A longer
  input that does not start with the first byte of the bzip2 magic, and whose first LDM
  record does not either, is rejected, whatever the bzip2 codec does.
\<close>

lemma BZ2_bzDecompress_stream_magic:
  assumes "input \<noteq> []" "input ! 0 \<noteq> 0x42"
  shows "BZ2_bzDecompress_stream codec input = DataError"
proof -
  obtain b bs where i: "input = b # bs" using assms(1) by (cases input) auto
  then have "b \<noteq> 0x42" using assms(2) by simp
  then show ?thesis
    by (auto simp: BZ2_bzDecompress_stream_def BZ_MAGIC_def i)
qed

lemma auto_decompress_large_not_passthrough:
  assumes "length data \<ge> 28" "data ! 0 \<noteq> 0x42" "length data > 28 \<longrightarrow> data ! 28 \<noteq> 0x42"
  shows "auto_decompress codec data = Failure"
proof -
  have nz: "data \<noteq> []" using assms(1) by auto
  have bz: "decompress_bz2 codec data = Failure"
    using BZ2_bzDecompress_stream_magic [OF nz assms(2)] nz by (simp add: decompress_bz2_def)
  have blk: "BZ2_bzDecompress_stream codec (take n (drop 28 data)) = DataError"
    if "0 < n" "28 < length data" for n
  proof (rule BZ2_bzDecompress_stream_magic)
    show "take n (drop 28 data) \<noteq> []" using that by simp
    show "take n (drop 28 data) ! 0 \<noteq> 0x42" using that assms(3) by simp
  qed
  have "\<exists>d. decompress_ldm_records codec data 24 (take 24 data) 0 = Some (d, 0)"
  proof (cases "28 < length data")
    case True
    show ?thesis
      by (subst decompress_ldm_records.simps) (auto simp: Let_def CONTROL_WORD_SIZE_def blk True)
  next
    case False
    then show ?thesis
      by (subst decompress_ldm_records.simps) (simp add: CONTROL_WORD_SIZE_def)
  qed
  then have "decompress_ldm codec data = Failure"
    using assms(1) by (auto simp: decompress_ldm_def VOLUME_HEADER_SIZE_def)
  then show ?thesis using bz nz assms(1,2)
    by (simp add: auto_decompress_def VOLUME_HEADER_SIZE_def CONTROL_WORD_SIZE_def)
qed


text \<open>
  Claim C6 says that \<open>auto_decompress\<close> succeeds for every already-uncompressed input and
  returns its bytes unchanged, as the header documents (\<open>@return true if decompression
  succeeded (or data was already uncompressed)\<close>). On the uncompressed stream above
  (40 bytes) the LDM reader finds the control word 0 and decodes no record, the
  fallback \<open>decompress_bz2\<close> finds no bzip2 magic, and \<open>auto_decompress\<close> returns false.
\<close>

theorem auto_decompress_rejects_uncompressed:
  "\<forall>codec. auto_decompress codec uncompressed_archive = Failure"
proof
  fix codec
  have "length uncompressed_archive \<ge> 28" "uncompressed_archive ! 0 \<noteq> 0x42"
    "length uncompressed_archive > 28 \<longrightarrow> uncompressed_archive ! 28 \<noteq> 0x42"
    by (simp_all add: uncompressed_archive_def bytes_of_def)
  then show "auto_decompress codec uncompressed_archive = Failure"
    by (rule auto_decompress_large_not_passthrough)
qed

text \<open>
  What does hold: inputs below 28 bytes that do not start with \<open>BZ\<close> pass through, and
  complete bzip2 streams decode. A bzip2 stream that ends early makes \<open>auto_decompress\<close>,
  like \<open>decompress_bz2\<close>, loop forever.
\<close>

lemma auto_decompress_passthrough_small:
  assumes "data \<noteq> []" "length data < 28" "\<not> (length data > 2 \<and> data ! 0 = 0x42 \<and> data ! 1 = 0x5A)"
  shows "auto_decompress codec data = Success data"
  using assms by (auto simp: auto_decompress_def VOLUME_HEADER_SIZE_def CONTROL_WORD_SIZE_def)

lemma auto_decompress_bz2:
  assumes "take 3 data = BZ_MAGIC"
  shows "auto_decompress codec data
           = (case codec data of StreamEnd out \<Rightarrow> Success out | DataError \<Rightarrow> Failure
              | InputExhausted \<Rightarrow> Hangs)"
proof -
  have "length (take 3 data) = 3" using assms by (simp add: BZ_MAGIC_def)
  then have l: "length data \<ge> 3" by simp
  have "take 3 data ! 0 = 0x42" "take 3 data ! 1 = 0x5A" using assms by (simp_all add: BZ_MAGIC_def)
  then have "data ! 0 = 0x42" "data ! 1 = 0x5A" by simp_all
  then show ?thesis using l assms
    by (auto simp: auto_decompress_def decompress_bz2_def BZ2_bzDecompress_stream_def)
qed

lemma auto_decompress_truncated_stream_hangs:
  assumes "take 3 data = BZ_MAGIC" "codec data = InputExhausted"
  shows "auto_decompress codec data = Hangs"
  using auto_decompress_bz2 [OF assms(1), of codec] assms(2) by simp

section \<open>Properties of the projection\<close>

lemma floor_minus_one_real: "\<lfloor>- 1 :: real\<rfloor> = - 1"
  by (simp add: floor_minus)

lemma gate_idx_examples:
  "gate_idx_of example_projection 500 = Some 0"
  "gate_idx_of example_projection (fl (7499 / 10)) = Some 0"
  "gate_idx_of example_projection 750 = Some 1"
  "gate_idx_of example_projection 499 = Some (-1)"
  by (simp_all add: gate_idx_of_def float_to_int_def example_projection_def fl_zero fl_binades
      round_half_even_def power_int_minus floor_minus_one_real)

lemma quantize_example: "quantize_value 30 (-32) (189 / 2) = Some 125"
  by (simp add: quantize_value_def c_round_def fl_binades round_half_even_def power_int_minus)

lemma quantize_floor_example: "quantize_value (-32) (-32) (189 / 2) = Some 0"
  by (simp add: quantize_value_def c_round_def fl_zero fl_binades round_half_even_def
      power_int_minus)

lemma gate_idx_of_floor:
  assumes "gate_spacing_meters p \<noteq> 0"
    and "- (2 ^ 31) \<le> fl (fl (range_m - first_gate_meters p) / gate_spacing_meters p)"
    and "fl (fl (range_m - first_gate_meters p) / gate_spacing_meters p) < 2 ^ 31"
  shows "gate_idx_of p range_m
           = Some \<lfloor>fl (fl (range_m - first_gate_meters p) / gate_spacing_meters p)\<rfloor>"
proof -
  define q where "q = fl (fl (range_m - first_gate_meters p) / gate_spacing_meters p)"
  have "(- (2 ^ 31) :: int) \<le> \<lfloor>q\<rfloor>"
    using assms(2) unfolding q_def [symmetric] by (simp add: le_floor_iff)
  then have lo: "- (2 ^ 31) \<le> (of_int \<lfloor>q\<rfloor> :: real)"
    by (metis of_int_le_iff of_int_minus of_int_numeral of_int_power)
  have "\<lfloor>q\<rfloor> < (2 ^ 31 :: int)"
    using assms(3) unfolding q_def [symmetric] by (simp add: floor_less_iff)
  then have hi: "(of_int \<lfloor>q\<rfloor> :: real) < 2 ^ 31"
    by (metis of_int_less_iff of_int_numeral of_int_power)
  show ?thesis
    using assms(1) lo hi unfolding gate_idx_of_def float_to_int_def q_def [symmetric]
    by simp
qed

lemma project_bin_dropped_iff:
  assumes "quantize_value v (quant_min p) (quant_max p) = Some val"
    and "gate_idx_of p range_m = Some g"
  shows "project_bin p grids (azimuth, range_m, v) = Dropped
           \<longleftrightarrow> val = 0 \<or> g < 0 \<or> int (vol_num_gates p) \<le> g"
proof (cases "val = 0 \<or> g < 0 \<or> int (vol_num_gates p) \<le> g")
  case True
  then show ?thesis using assms
    by (auto simp: project_bin_def split: prod.splits)
next
  case False
  obtain grid_2d vol_grid where g: "grids = (grid_2d, vol_grid)" by (cases grids)
  have "project_bin p grids (azimuth, range_m, v) \<noteq> Dropped"
    using assms False unfolding project_bin_def g
    by (simp add: Let_def split: option.splits)
  then show ?thesis using False by simp
qed

text \<open>
  Claim C9 says that a bin is dropped iff its gate index lies outside \<open>[0, num_gates)\<close>.
  The loop body first skips every bin whose quantized value is the empty sentinel 0.
  What holds for every bin (with a non-zero gate spacing and a quotient that fits an
  \<open>int\<close>): \<open>gate_idx\<close> is the floor of \<open>(range - first_gate) / gate_spacing\<close>, evaluated in
  single precision as the source does, and the bin is dropped iff its quantized value is
  0 or \<open>gate_idx\<close> lies outside \<open>[0, num_gates)\<close>. With first gate 500 and spacing 250,
  range 500 gives gate 0, 749.9 gate 0, 750.0 gate 1, and 499.0 gives gate \<open>-1\<close> and the
  bin is dropped.
\<close>

theorem gate_index_and_drop:
  assumes "quantize_value v (quant_min p) (quant_max p) = Some val"
    and "gate_spacing_meters p \<noteq> 0"
    and "- (2 ^ 31) \<le> fl (fl (range_m - first_gate_meters p) / gate_spacing_meters p)"
    and "fl (fl (range_m - first_gate_meters p) / gate_spacing_meters p) < 2 ^ 31"
  shows "gate_idx_of p range_m
           = Some \<lfloor>fl (fl (range_m - first_gate_meters p) / gate_spacing_meters p)\<rfloor>
       \<and> (project_bin p grids (azimuth, range_m, v) = Dropped
            \<longleftrightarrow> val = 0
                \<or> \<lfloor>fl (fl (range_m - first_gate_meters p) / gate_spacing_meters p)\<rfloor> < 0
                \<or> int (vol_num_gates p)
                    \<le> \<lfloor>fl (fl (range_m - first_gate_meters p) / gate_spacing_meters p)\<rfloor>)
       \<and> gate_idx_of example_projection 500 = Some 0
       \<and> gate_idx_of example_projection (fl (7499 / 10)) = Some 0
       \<and> gate_idx_of example_projection 750 = Some 1
       \<and> gate_idx_of example_projection 499 = Some (-1)
       \<and> project_bin example_projection grids (azimuth, 499, 30) = Dropped"
proof -
  note g = gate_idx_of_floor [OF assms(2-4)]
  have "project_bin example_projection grids (azimuth, 499, 30) = Dropped"
  proof -
    have q: "quantize_value 30 (quant_min example_projection) (quant_max example_projection) = Some 125"
      using quantize_example by (simp add: example_projection_def)
    from project_bin_dropped_iff [OF q gate_idx_examples(4)]
    show ?thesis by simp
  qed
  then show ?thesis
    using project_bin_dropped_iff [OF assms(1) g] g gate_idx_examples by blast
qed

text \<open>
  The theorem at the bin of value 30 and range 750 of the example geometry: its quantized
  value is 125, its gate index is 1 of 4, and it is projected.
\<close>

theorem gate_index_and_drop_witness:
  "quantize_value 30 (quant_min example_projection) (quant_max example_projection) = Some 125
   \<and> gate_spacing_meters example_projection \<noteq> 0
   \<and> - (2 ^ 31) \<le> fl (fl (750 - first_gate_meters example_projection)
                         / gate_spacing_meters example_projection)
   \<and> fl (fl (750 - first_gate_meters example_projection)
           / gate_spacing_meters example_projection) < 2 ^ 31
   \<and> gate_idx_of example_projection 750 = Some 1
   \<and> project_bin example_projection (replicate 1440 0, replicate 2880 0) (Number 1, 750, 30) \<noteq> Dropped"
proof -
  have q: "quantize_value 30 (quant_min example_projection) (quant_max example_projection) = Some 125"
    using quantize_example by (simp add: example_projection_def)
  have s: "gate_spacing_meters example_projection \<noteq> 0" by (simp add: example_projection_def)
  have e: "fl (fl (750 - first_gate_meters example_projection)
                / gate_spacing_meters example_projection) = 1"
    by (simp add: example_projection_def fl_binades round_half_even_def power_int_minus)
  have lo: "- (2 ^ 31) \<le> fl (fl (750 - first_gate_meters example_projection)
                         / gate_spacing_meters example_projection)"
    unfolding e by simp
  have hi: "fl (fl (750 - first_gate_meters example_projection)
           / gate_spacing_meters example_projection) < 2 ^ 31"
    unfolding e by simp
  have v: "vol_num_gates example_projection = 4" by (simp add: example_projection_def)
  from gate_index_and_drop [OF q s lo hi, of "(replicate 1440 0, replicate 2880 0)" "Number 1"]
  have "gate_idx_of example_projection 750 = Some 1
        \<and> project_bin example_projection (replicate 1440 0, replicate 2880 0) (Number 1, 750, 30) \<noteq> Dropped"
    unfolding e v by simp
  with q s lo hi show ?thesis by blast
qed

text \<open>
  Claim C9 as stated fails for a bin of the lowest value: a reflectivity of -32 dBZ
  (raw gate value 2) quantizes to 0, and the bin at range 750, whose gate index 1 lies
  inside \<open>[0, 4)\<close>, is dropped.
\<close>

theorem zero_valued_bin_dropped_inside_grid:
  "quantize_value (-32) (quant_min example_projection) (quant_max example_projection) = Some 0
   \<and> gate_idx_of example_projection 750 = Some 1
   \<and> (0 :: int) \<le> 1 \<and> 1 < int (vol_num_gates example_projection)
   \<and> project_bin example_projection (replicate 1440 0, replicate 2880 0) (Number 1, 750, -32) = Dropped"
proof -
  have q: "quantize_value (-32) (quant_min example_projection) (quant_max example_projection) = Some 0"
    using quantize_floor_example by (simp add: example_projection_def)
  have v: "vol_num_gates example_projection = 4" by (simp add: example_projection_def)
  have "project_bin example_projection (replicate 1440 0, replicate 2880 0) (Number 1, 750, -32) = Dropped"
    using q by (simp add: project_bin_def)
  with q v gate_idx_examples(3) show ?thesis by simp
qed

section \<open>Properties of the radial handlers\<close>


text \<open>The two single-precision bounds.\<close>

lemma angle_bounds: "fl (1 / 10) = 13421773 / 134217728" "fl (3601 / 10) = 11799757 / 32768"
  by (simp_all add: fl_binades round_half_even_def power_int_minus)


lemma upt_two: "[0..<2] = [0, 1]"
  by (simp add: numeral_2_eq_2)

lemmas radial_eval_simps = upt_two
  radial_angles_def example_radial_def example_ref_block_def all_bins_def
  dispatch_message_def handle_message31_def parse_state_init_def RadarFrame_new_def
  angle_out_of_range_def angle_bounds sizeof_Message31Header_def
  STATUS_START_ELEVATION_def STATUS_START_VOLUME_def STATUS_START_ELEVATION_SEGMENTED_def
  on_frames_def new_sweep_def on_sweep_def get_tilt_key_def float_to_int_def c_round_def
  m31_block_def safe_pointer_dereference_def sizeof_DataBlock_Header_def safe_read_struct_def
  sizeof_DataBlock_Moment_def m31_moment_on_frame_def get_moment_type_def
  is_target_moment_def m31_gate_bins_def quantize_value_internal_def
  fl_zero fl_binades round_half_even_def power_int_minus Let_def word_le_nat_alt


text \<open>
  A NaN angle passes the test. With a NaN azimuth the example radial opens a sweep and
  contributes a bin whose azimuth is the NaN. With a NaN elevation, a radial inside a
  sweep (radial status 1, same elevation number) contributes its bin to the open sweep;
  at the start of a sweep the NaN becomes the sweep elevation and \<open>get_tilt_key\<close> converts
  it to \<open>int\<close>, which the language leaves undefined.
\<close>

lemma nan_not_out_of_range:
  "angle_out_of_range NaN elevation
     = (float_less elevation (Number (-5)) \<or> float_less (Number 90) elevation)"
  "angle_out_of_range azimuth NaN
     = (float_less azimuth (Number (- fl (1 / 10))) \<or> float_less (Number (fl (3601 / 10))) azimuth)"
  by (simp_all add: angle_out_of_range_def)

lemma nan_azimuth_not_dropped:
  "map_option all_bins
     (dispatch_message (GenericRadial (example_radial NaN (Number (1 / 2))))
        (parse_state_init [''reflectivity'']))
     = Some [[[NaN, Number 2125, Number 63]]]"
  by (simp add: radial_eval_simps)

lemma nan_elevation_not_dropped:
  "map_option all_bins
     (Option.bind
        (dispatch_message (GenericRadial (example_radial (Number 10) (Number (1 / 2))))
           (parse_state_init [''reflectivity'']))
        (dispatch_message (GenericRadial
           ((example_radial (Number 11) NaN)\<lparr>m31_radial_status := 1\<rparr>))))
     = Some [[[Number 10, Number 2125, Number 63, Number 11, Number 2125, Number 63]]]"
  by (simp add: radial_eval_simps)

lemma nan_elevation_new_sweep_undefined:
  "dispatch_message (GenericRadial (example_radial (Number 10) NaN))
     (parse_state_init [''reflectivity'']) = None"
  by (simp add: radial_eval_simps)

section \<open>Properties of retention\<close>

lemma scan_timestamps_view: "scan_timestamps product d = scan_view (pview product d)"
  by (induction d) (auto simp: pview_def split: fs_node.splits option.splits sum.splits)

lemma product_timestamps_view:
  "product_timestamps d product = map fst (filter (\<lambda>(t, c). is_dir_opt c) (pview product d))"
  by (induction d)
     (auto simp: product_timestamps_def pview_def is_dir_opt_def split: fs_node.splits option.splits)

lemma map_of_filter_other:
  "q \<noteq> name \<Longrightarrow> map_of (filter (\<lambda>(n, c). n \<noteq> name) children) q = map_of children q"
  by (induction children) auto

lemma map_of_filter_same:
  "map_of (filter (\<lambda>(n, c). n \<noteq> name) children) name = None"
  by (induction children) auto

lemma pview_remove_other:
  "q \<noteq> product \<Longrightarrow> pview q (remove_all_product product timestamp d) = pview q d"
  by (induction d)
     (auto simp: pview_def remove_all_product_def remove_child_def map_of_filter_other
           split: fs_node.splits)

lemma pview_remove_same:
  "pview product (remove_all_product product timestamp d) =
     map (\<lambda>(t, c). if t = timestamp then (t, None) else (t, c)) (pview product d)"
  by (induction d)
     (auto simp: pview_def remove_all_product_def remove_child_def map_of_filter_same
           split: fs_node.splits)

lemma pview_fold_remove_other:
  "q \<noteq> product \<Longrightarrow> pview q (fold (remove_all_product product) dels d) = pview q d"
  by (induction dels arbitrary: d) (simp_all add: pview_remove_other)

lemma pview_fold_remove_same:
  "pview product (fold (remove_all_product product) dels d) =
     map (\<lambda>(t, c). if t \<in> set dels then (t, None) else (t, c)) (pview product d)"
proof (induction dels arbitrary: d)
  case Nil
  then show ?case by simp
next
  case (Cons a dels)
  show ?case
    by (simp add: Cons.IH pview_remove_same) (auto simp: fun_eq_iff)
qed


lemma products_add_lookup:
  "map_of (products_add p ts prods) q =
     (if q = p then Some (tss_of prods p @ [ts]) else map_of prods q)"
  by (induction prods) (auto simp: tss_of_def)

lemma tss_of_products_add:
  "tss_of (products_add p ts prods) q = (if q = p then tss_of prods p @ [ts] else tss_of prods q)"
  by (simp add: tss_of_def products_add_lookup)

lemma products_add_keys:
  "map fst (products_add p ts prods) =
     (if p \<in> set (map fst prods) then map fst prods else map fst prods @ [p])"
  by (induction prods) (auto simp: rev_image_eqI)

lemma products_add_distinct:
  "distinct (map fst prods) \<Longrightarrow> distinct (map fst (products_add p ts prods))"
  by (simp add: products_add_keys)

lemma collect_children_lookup:
  "distinct (map fst ch) \<Longrightarrow>
     tss_of (collect_children ts ch prods) q =
       tss_of prods q @ (if is_dir_opt (map_of ch q) then [ts] else [])"
proof (induction ch arbitrary: prods)
  case Nil
  then show ?case by (simp add: is_dir_opt_def)
next
  case (Cons a ch)
  obtain name node where a: "a = (name, node)" by (cases a)
  from Cons.prems a have d: "distinct (map fst ch)" and nn: "name \<notin> fst ` set ch" by auto
  have none: "map_of ch name = None" using nn by (simp add: map_of_eq_None_iff)
  show ?case
  proof (cases "q = name")
    case True
    then show ?thesis
      using Cons.IH [OF d] none
      by (cases node) (simp_all add: a is_dir_opt_def tss_of_products_add)
  next
    case False
    then show ?thesis
      using Cons.IH [OF d]
      by (cases node) (simp_all add: a tss_of_products_add)
  qed
qed

lemma collect_children_distinct:
  "distinct (map fst prods) \<Longrightarrow> distinct (map fst (collect_children ts ch prods))"
  by (induction ch arbitrary: prods) (auto simp: products_add_distinct)

lemma collect_products_lookup:
  "wf_station_dir d \<Longrightarrow>
     tss_of (collect_products d prods) q = tss_of prods q @ product_timestamps d q"
proof (induction d arbitrary: prods)
  case Nil
  then show ?case by (simp add: product_timestamps_def)
next
  case (Cons a d)
  obtain ts node where a: "a = (ts, node)" by (cases a)
  from Cons.prems have wf: "wf_station_dir d" by (auto simp: wf_station_dir_def)
  show ?case
  proof (cases node)
    case RegularFile
    then show ?thesis using Cons.IH [OF wf] by (simp add: a product_timestamps_def)
  next
    case (Directory ch)
    then have dc: "distinct (map fst ch)" using Cons.prems a by (simp add: wf_station_dir_def)
    show ?thesis
      using Cons.IH [OF wf] collect_children_lookup [OF dc]
      by (simp add: a Directory product_timestamps_def is_dir_opt_def
            split: option.splits fs_node.splits)
  qed
qed

lemma collect_products_distinct:
  "distinct (map fst prods) \<Longrightarrow> distinct (map fst (collect_products d prods))"
  by (induction d arbitrary: prods) (auto simp: collect_children_distinct split: fs_node.splits)

lemma collect_products_entry:
  assumes "wf_station_dir d" "product_timestamps d q \<noteq> []"
  shows "\<exists>xs ys. collect_products d [] = xs @ (q, product_timestamps d q) # ys
           \<and> q \<notin> fst ` set xs \<and> q \<notin> fst ` set ys"
proof -
  have t: "tss_of (collect_products d []) q = product_timestamps d q"
    using collect_products_lookup [OF assms(1), of "[]" q] by (simp add: tss_of_def)
  then have m: "map_of (collect_products d []) q = Some (product_timestamps d q)"
    using assms(2) by (auto simp: tss_of_def split: option.splits)
  then have "(q, product_timestamps d q) \<in> set (collect_products d [])"
    by (rule map_of_SomeD)
  then obtain xs ys where sp: "collect_products d [] = xs @ (q, product_timestamps d q) # ys"
    by (meson split_list)
  have "distinct (map fst (collect_products d []))"
    by (rule collect_products_distinct) simp
  then have "q \<notin> fst ` set xs \<and> q \<notin> fst ` set ys"
    unfolding sp by auto
  then show ?thesis using sp by blast
qed


lemma update_index_other:
  "k \<noteq> (station, product) \<Longrightarrow> update_index station product d idx k = idx k"
  by (simp add: update_index_def split: sum.splits)

lemma cleanup_product_other:
  assumes "q \<noteq> fst entry"
  shows "pview q (fst (cleanup_product max_frames station entry (d, idx))) = pview q d"
    and "snd (cleanup_product max_frames station entry (d, idx)) (station', q) = idx (station', q)"
  using assms
  by (auto simp: cleanup_product_def Let_def pview_fold_remove_other update_index_other
           split: prod.splits)

lemma cleanup_fold_other:
  assumes "q \<notin> fst ` set es"
  shows "pview q (fst (fold (cleanup_product max_frames station) es st)) = pview q (fst st)
       \<and> snd (fold (cleanup_product max_frames station) es st) (station', q) = snd st (station', q)"
  using assms
proof (induction es arbitrary: st)
  case Nil
  then show ?case by simp
next
  case (Cons e es)
  obtain d idx where st: "st = (d, idx)" by (cases st)
  from Cons.prems have q: "q \<noteq> fst e" "q \<notin> fst ` set es" by auto
  have 1: "pview q (fst (cleanup_product max_frames station e (d, idx))) = pview q d"
    using q(1) by (rule cleanup_product_other(1))
  have 2: "snd (cleanup_product max_frames station e (d, idx)) (station', q) = idx (station', q)"
    using q(1) by (rule cleanup_product_other(2))
  show ?case
    using Cons.IH [OF q(2), of "cleanup_product max_frames station e st"] 1 2
    by (simp add: st)
qed

lemma scan_product_dir_fst: "(t, stem) \<in> set (scan_product_dir timestamp files) \<Longrightarrow> t = timestamp"
  by (induction files) (auto split: fs_node.splits option.splits)

lemma scan_view_timestamps:
  "scan_view v = Inr frames \<Longrightarrow> (t, stem) \<in> set frames
     \<Longrightarrow> t \<in> set (map fst (filter (\<lambda>(t, c). is_dir_opt c) v))"
proof (induction v arbitrary: frames)
  case Nil
  then show ?case by simp
next
  case (Cons a v)
  obtain ts c where a: "a = (ts, c)" by (cases a)
  show ?case
  proof (cases c)
    case None
    then show ?thesis using Cons a by (auto simp: is_dir_opt_def)
  next
    case (Some node)
    show ?thesis
    proof (cases node)
      case RegularFile
      then show ?thesis using Cons.prems a Some by simp
    next
      case (Directory files)
      from Cons.prems(1) obtain fr where fr: "scan_view v = Inr fr"
        and frames: "frames = scan_product_dir ts files @ fr"
        by (auto simp: a Some Directory split: sum.splits)
      from Cons.prems(2) frames consider "(t, stem) \<in> set (scan_product_dir ts files)"
        | "(t, stem) \<in> set fr" by auto
      then show ?thesis
      proof cases
        case 1
        then have "t = ts" by (rule scan_product_dir_fst)
        then show ?thesis by (simp add: a Some Directory is_dir_opt_def)
      next
        case 2
        from Cons.IH [OF fr 2] show ?thesis by (auto simp: a)
      qed
    qed
  qed
qed

lemma scan_view_removed:
  "scan_view v = Inr frames \<Longrightarrow>
     scan_view (map (\<lambda>(t, c). if t \<in> D then (t, None) else (t, c)) v)
       = Inr (filter (\<lambda>(t, stem). t \<notin> D) frames)"
proof (induction v arbitrary: frames)
  case Nil
  then show ?case by simp
next
  case (Cons a v)
  obtain ts c where a: "a = (ts, c)" by (cases a)
  have all_ts: "filter (\<lambda>(t, stem). t \<notin> D) (scan_product_dir ts files)
                  = (if ts \<in> D then [] else scan_product_dir ts files)" for files
    by (auto simp: filter_empty_conv filter_id_conv dest: scan_product_dir_fst)
  show ?case
  proof (cases c)
    case None
    then show ?thesis using Cons a by simp
  next
    case (Some node)
    show ?thesis
    proof (cases node)
      case RegularFile
      then show ?thesis using Cons.prems a Some by simp
    next
      case (Directory files)
      from Cons.prems(1) obtain fr where fr: "scan_view v = Inr fr"
        and frames: "frames = scan_product_dir ts files @ fr"
        by (auto simp: a Some Directory split: sum.splits)
      show ?thesis
        using Cons.IH [OF fr] by (simp add: a Some Directory frames all_ts)
    qed
  qed
qed

lemma view_timestamps_removed:
  "map fst (filter (\<lambda>(t, c). is_dir_opt c) (map (\<lambda>(t, c). if t \<in> D then (t, None) else (t, c)) v))
     = filter (\<lambda>t. t \<notin> D) (map fst (filter (\<lambda>(t, c). is_dir_opt c) v))"
  by (induction v) (auto simp: is_dir_opt_def)

lemma product_timestamps_distinct:
  "wf_station_dir d \<Longrightarrow> distinct (product_timestamps d product)"
  by (simp add: product_timestamps_def wf_station_dir_def distinct_map_filter)


lemma product_timestamps_cong:
  "pview product d1 = pview product d2 \<Longrightarrow> product_timestamps d1 product = product_timestamps d2 product"
  by (simp add: product_timestamps_view)

lemma scan_directory_cong:
  "pview product d1 = pview product d2 \<Longrightarrow> scan_directory d1 product = scan_directory d2 product"
  by (simp add: scan_directory_def scan_timestamps_view)

lemma cleanup_product_same:
  assumes tss: "tss = product_timestamps d product" and dist: "distinct tss"
    and max: "0 \<le> max_frames" "length tss > nat max_frames"
    and scan: "scan_directory d product = Inr ix0"
  defines "keep \<equiv> take (nat max_frames) (rev (sort tss))"
  shows "product_timestamps (fst (cleanup_product max_frames station (product, tss) (d, idx))) product
           = filter (\<lambda>t. t \<in> set keep) tss"
    and "scan_directory (fst (cleanup_product max_frames station (product, tss) (d, idx))) product
           = Inr (filter (\<lambda>(t, stem). t \<in> set keep) ix0)"
    and "snd (cleanup_product max_frames station (product, tss) (d, idx)) (station, product)
           = Some (filter (\<lambda>(t, stem). t \<in> set keep) ix0)"
proof -
  define sorted where "sorted = rev (sort tss)"
  define dels where "dels = drop (nat max_frames) sorted"
  define d' where "d' = fold (remove_all_product product) dels d"
  have step: "cleanup_product max_frames station (product, tss) (d, idx)
                = (d', update_index station product d' idx)"
    using max by (simp add: cleanup_product_def Let_def d'_def dels_def sorted_def)
  have split: "sorted = keep @ dels" by (simp add: keep_def dels_def sorted_def)
  have ds: "distinct sorted" "set sorted = set tss" using dist by (simp_all add: sorted_def)
  have mem: "t \<notin> set dels \<longleftrightarrow> t \<in> set keep" if "t \<in> set tss" for t
    using that ds unfolding split by auto
  have pv: "pview product d' =
       map (\<lambda>(t, c). if t \<in> set dels then (t, None) else (t, c)) (pview product d)"
    unfolding d'_def by (rule pview_fold_remove_same)
  have "product_timestamps d' product = filter (\<lambda>t. t \<notin> set dels) tss"
    by (simp add: product_timestamps_view pv view_timestamps_removed tss)
  also have "\<dots> = filter (\<lambda>t. t \<in> set keep) tss"
    by (rule filter_cong) (simp_all add: mem)
  finally show "product_timestamps (fst (cleanup_product max_frames station (product, tss) (d, idx)))
      product = filter (\<lambda>t. t \<in> set keep) tss"
    by (simp add: step)
  from scan obtain fr0 where fr0: "scan_view (pview product d) = Inr fr0"
    and ix0: "ix0 = rev (sort_key fst fr0)"
    by (auto simp: scan_directory_def scan_timestamps_view split: sum.splits)
  have "scan_view (pview product d') = Inr (filter (\<lambda>(t, stem). t \<notin> set dels) fr0)"
    unfolding pv using fr0 by (rule scan_view_removed)
  moreover have "filter (\<lambda>(t, stem). t \<notin> set dels) fr0 = filter (\<lambda>(t, stem). t \<in> set keep) fr0"
  proof (rule filter_cong [OF refl])
    fix x assume x: "x \<in> set fr0"
    obtain t stem where xt: "x = (t, stem)" by (cases x)
    from scan_view_timestamps [OF fr0] x xt have "t \<in> set tss"
      by (simp add: tss product_timestamps_view)
    then show "(case x of (t, stem) \<Rightarrow> t \<notin> set dels) = (case x of (t, stem) \<Rightarrow> t \<in> set keep)"
      by (simp add: xt mem)
  qed
  moreover have "filter (\<lambda>(t, stem). t \<in> set keep) (rev (sort_key fst fr0))
                   = rev (sort_key fst (filter (\<lambda>(t, stem). t \<in> set keep) fr0))"
    by (simp only: rev_filter [symmetric] filter_sort)
  ultimately have sd: "scan_directory d' product = Inr (filter (\<lambda>(t, stem). t \<in> set keep) ix0)"
    by (simp add: scan_directory_def scan_timestamps_view ix0)
  then show "scan_directory (fst (cleanup_product max_frames station (product, tss) (d, idx)))
      product = Inr (filter (\<lambda>(t, stem). t \<in> set keep) ix0)"
    by (simp add: step)
  show "snd (cleanup_product max_frames station (product, tss) (d, idx)) (station, product)
           = Some (filter (\<lambda>(t, stem). t \<in> set keep) ix0)"
    by (simp add: step update_index_def sd)
qed

lemma cleanup_station_product:
  assumes wf: "wf_station_dir d"
    and max: "0 \<le> max_frames" "length (product_timestamps d product) > nat max_frames"
    and scan: "scan_directory d product = Inr ix0"
  defines "keep \<equiv> take (nat max_frames) (rev (sort (product_timestamps d product)))"
  shows "product_timestamps (fst (cleanup_station max_frames station d idx)) product
           = filter (\<lambda>t. t \<in> set keep) (product_timestamps d product)"
    and "scan_directory (fst (cleanup_station max_frames station d idx)) product
           = Inr (filter (\<lambda>(t, stem). t \<in> set keep) ix0)"
    and "snd (cleanup_station max_frames station d idx) (station, product)
           = Some (filter (\<lambda>(t, stem). t \<in> set keep) ix0)"
proof -
  define tss where "tss = product_timestamps d product"
  define f where "f = cleanup_product max_frames station"
  have ne: "product_timestamps d product \<noteq> []" using max(2) by auto
  from collect_products_entry [OF wf ne] obtain xs ys
    where sp: "collect_products d [] = xs @ (product, tss) # ys"
      and nx: "product \<notin> fst ` set xs" and ny: "product \<notin> fst ` set ys"
    unfolding tss_def by blast
  define d1 where "d1 = fst (fold f xs (d, idx))"
  define i1 where "i1 = snd (fold f xs (d, idx))"
  define st2 where "st2 = f (product, tss) (d1, i1)"
  have fin: "cleanup_station max_frames station d idx = fold f ys st2"
    unfolding cleanup_station_def sp f_def [symmetric] fold_append st2_def d1_def i1_def
    by simp
  have v1: "pview product d1 = pview product d"
    using cleanup_fold_other [OF nx, of max_frames station "(d, idx)" station]
    unfolding d1_def f_def by simp
  have t1: "tss = product_timestamps d1 product"
    unfolding tss_def by (rule product_timestamps_cong [OF v1 [symmetric]])
  have s1: "scan_directory d1 product = Inr ix0"
    using scan_directory_cong [OF v1] scan by (simp only:)
  have dist: "distinct tss"
    unfolding tss_def using wf by (rule product_timestamps_distinct)
  have max': "length tss > nat max_frames" using max(2) by (simp only: tss_def)
  have k: "keep = take (nat max_frames) (rev (sort tss))"
    by (simp only: keep_def tss_def)
  note same = cleanup_product_same [OF t1 dist max(1) max' s1, of station i1,
      folded f_def, folded st2_def, folded k]
  have v3: "pview product (fst (fold f ys st2)) = pview product (fst st2)"
    and i3: "snd (fold f ys st2) (station, product) = snd st2 (station, product)"
    using cleanup_fold_other [OF ny, of max_frames station st2 station]
    unfolding f_def by simp_all
  show "product_timestamps (fst (cleanup_station max_frames station d idx)) product
           = filter (\<lambda>t. t \<in> set keep) (product_timestamps d product)"
    unfolding fin using product_timestamps_cong [OF v3] same(1) by (simp only: tss_def)
  show "scan_directory (fst (cleanup_station max_frames station d idx)) product
           = Inr (filter (\<lambda>(t, stem). t \<in> set keep) ix0)"
    unfolding fin using scan_directory_cong [OF v3] same(2) by (simp only:)
  show "snd (cleanup_station max_frames station d idx) (station, product)
           = Some (filter (\<lambda>(t, stem). t \<in> set keep) ix0)"
    unfolding fin using i3 same(3) by (simp only:)
qed

lemma cleanup_station_other_station:
  assumes "station' \<noteq> station"
  shows "snd (cleanup_station max_frames station' d idx) (station, product) = idx (station, product)"
proof -
  have "snd (fold (cleanup_product max_frames station') es st) (station, product)
          = snd st (station, product)" for es st
  proof (induction es arbitrary: st)
    case Nil
    then show ?case by simp
  next
    case (Cons e es)
    have "snd (cleanup_product max_frames station' e st) (station, product) = snd st (station, product)"
      using assms
      by (auto simp: cleanup_product_def Let_def update_index_other split: prod.splits)
    then show ?case using Cons.IH by simp
  qed
  then show ?thesis by (simp add: cleanup_station_def)
qed

lemma cleanup_stations_other:
  "station \<notin> fst ` set stations \<Longrightarrow>
     snd (cleanup_stations max_frames stations idx) (station, product) = idx (station, product)"
proof (induction stations arbitrary: idx)
  case Nil
  then show ?case by simp
next
  case (Cons a stations)
  obtain name node where a: "a = (name, node)" by (cases a)
  from Cons.prems a have ne: "name \<noteq> station" and rest: "station \<notin> fst ` set stations" by auto
  show ?case
  proof (cases node)
    case RegularFile
    then show ?thesis using Cons.IH [OF rest] by (simp add: a case_prod_beta)
  next
    case (Directory d)
    show ?thesis
      using Cons.IH [OF rest, of "snd (cleanup_station max_frames name d idx)"]
        cleanup_station_other_station [OF ne, of max_frames d idx product]
      by (simp add: a Directory case_prod_beta)
  qed
qed

lemma cleanup_stations_station:
  assumes "distinct (map fst stations)" "map_of stations station = Some (Directory d)"
  shows "\<exists>idx0. map_of (fst (cleanup_stations max_frames stations idx)) station
                  = Some (Directory (fst (cleanup_station max_frames station d idx0)))
              \<and> snd (cleanup_stations max_frames stations idx) (station, product)
                  = snd (cleanup_station max_frames station d idx0) (station, product)"
  using assms
proof (induction stations arbitrary: idx)
  case Nil
  then show ?case by simp
next
  case (Cons a stations)
  obtain name node where a: "a = (name, node)" by (cases a)
  from Cons.prems a have dist: "distinct (map fst stations)"
    and nn: "name \<notin> fst ` set stations" by auto
  show ?case
  proof (cases "name = station")
    case True
    then have node: "node = Directory d" using Cons.prems(2) a by simp
    have "snd (cleanup_stations max_frames stations (snd (cleanup_station max_frames station d idx)))
            (station, product) = snd (cleanup_station max_frames station d idx) (station, product)"
      using nn True by (intro cleanup_stations_other) simp
    then show ?thesis
      by (intro exI [of _ idx]) (simp add: a True node case_prod_beta)
  next
    case False
    then have m: "map_of stations station = Some (Directory d)"
      using Cons.prems(2) a by simp
    show ?thesis
    proof (cases node)
      case RegularFile
      from Cons.IH [OF dist m, of idx] show ?thesis
        using False by (simp add: a RegularFile case_prod_beta)
    next
      case (Directory d1)
      from Cons.IH [OF dist m, of "snd (cleanup_station max_frames name d1 idx)"] show ?thesis
        using False by (simp add: a Directory case_prod_beta)
    qed
  qed
qed

lemma single_tilt_timestamps:
  "product_timestamps single_tilt_station ''reflectivity'' = map example_timestamp [0..<35]"
  by code_simp

lemma single_tilt_scan:
  "scan_directory single_tilt_station ''reflectivity''
     = Inr (map (\<lambda>k. (example_timestamp k, ''0.5'')) (rev [0..<35]))"
  by code_simp

lemma single_tilt_kept_timestamps:
  "filter (\<lambda>t. t \<in> set (take (nat 30) (rev (sort (map example_timestamp [0..<35])))))
     (map example_timestamp [0..<35]) = map example_timestamp [5..<35]"
  by code_simp

lemma single_tilt_kept_index:
  "filter (\<lambda>(t, stem). t \<in> set (take (nat 30) (rev (sort (map example_timestamp [0..<35])))))
     (map (\<lambda>k. (example_timestamp k, ''0.5'')) (rev [0..<35]))
    = map (\<lambda>k. (example_timestamp k, ''0.5'')) (rev [5..<35])"
  by code_simp

text \<open>
  Claim C8. Retention for a station and product whose on-disk timestamps number more
  than \<open>max_frames_per_station\<close> (with \<open>max_frames_per_station\<close> not negative and the scan
  of the product not failing): the timestamps that remain for the product are exactly the
  \<open>max_frames_per_station\<close> lexicographically largest ones, every other timestamp has lost
  its product directory, and the index of the station and product is rewritten to the
  scan of what remains, which is the previous scan restricted to the retained
  timestamps. The index has one entry per \<open>.RDA\<close> file, not one per timestamp.
\<close>

theorem retention_keeps_newest:
  assumes "distinct (map fst stations)" "map_of stations station = Some (Directory d)"
    and "wf_station_dir d"
    and "0 \<le> max_frames" "length (product_timestamps d product) > nat max_frames"
    and "scan_directory d product = Inr ix0"
  shows "\<exists>stations' idx' d'.
           cleanup_old_frames max_frames (Some stations) idx = (Some stations', idx')
         \<and> map_of stations' station = Some (Directory d')
         \<and> product_timestamps d' product
             = filter (\<lambda>t. t \<in> set (take (nat max_frames) (rev (sort (product_timestamps d product)))))
                 (product_timestamps d product)
         \<and> set (product_timestamps d' product)
             = set (take (nat max_frames) (rev (sort (product_timestamps d product))))
         \<and> length (product_timestamps d' product) = nat max_frames
         \<and> scan_directory d' product
             = Inr (filter (\<lambda>(t, stem). t \<in> set (take (nat max_frames)
                                            (rev (sort (product_timestamps d product))))) ix0)
         \<and> idx' (station, product)
             = Some (filter (\<lambda>(t, stem). t \<in> set (take (nat max_frames)
                                             (rev (sort (product_timestamps d product))))) ix0)"
proof -
  let ?tss = "product_timestamps d product"
  let ?keep = "take (nat max_frames) (rev (sort ?tss))"
  from cleanup_stations_station [OF assms(1,2), of max_frames idx product] obtain idx0
    where m: "map_of (fst (cleanup_stations max_frames stations idx)) station
                = Some (Directory (fst (cleanup_station max_frames station d idx0)))"
      and i: "snd (cleanup_stations max_frames stations idx) (station, product)
                = snd (cleanup_station max_frames station d idx0) (station, product)"
    by blast
  define d' where "d' = fst (cleanup_station max_frames station d idx0)"
  note st = cleanup_station_product [OF assms(3-6), of station idx0, folded d'_def]
  have "set ?keep \<subseteq> set (rev (sort ?tss))" by (rule set_take_subset)
  then have sub: "set ?keep \<subseteq> set ?tss" by simp
  have dist: "distinct ?tss" using assms(3) by (rule product_timestamps_distinct)
  have s: "set (product_timestamps d' product) = set ?keep"
    unfolding st(1) using sub by auto
  have dk: "distinct ?keep" using dist by simp
  have "distinct (product_timestamps d' product)" unfolding st(1) using dist by simp
  then have "length (product_timestamps d' product) = card (set ?keep)"
    using s by (metis distinct_card)
  also have "\<dots> = length ?keep" using dk by (rule distinct_card)
  also have "\<dots> = nat max_frames" using assms(5) by simp
  finally have l: "length (product_timestamps d' product) = nat max_frames" .
  have c: "cleanup_old_frames max_frames (Some stations) idx
             = (Some (fst (cleanup_stations max_frames stations idx)),
                snd (cleanup_stations max_frames stations idx))"
    by (simp add: cleanup_old_frames_def case_prod_beta)
  have i': "snd (cleanup_stations max_frames stations idx) (station, product)
              = Some (filter (\<lambda>(t, stem). t \<in> set ?keep) ix0)"
    using i st(3) by (simp add: d'_def)
  have m': "map_of (fst (cleanup_stations max_frames stations idx)) station = Some (Directory d')"
    using m by (simp add: d'_def)
  show ?thesis
    apply (rule exI [of _ "fst (cleanup_stations max_frames stations idx)"])
    apply (rule exI [of _ "snd (cleanup_stations max_frames stations idx)"])
    apply (rule exI [of _ d'])
    apply (intro conjI)
          apply (rule c)
         apply (rule m')
        apply (rule st(1))
       apply (rule s)
      apply (rule l)
     apply (rule st(2))
    apply (rule i')
    done
qed

text \<open>
  The example of claim C8 where each timestamp holds a single \<open>.RDA\<close> file: with 35
  timestamps and \<open>max_frames_per_station = 30\<close> the 5 lexicographically smallest
  timestamps are deleted, and the rewritten index has 30 entries.
\<close>

theorem retention_keeps_newest_witness:
  "distinct (map fst [(''KTLX'', Directory single_tilt_station)])
   \<and> map_of [(''KTLX'', Directory single_tilt_station)] ''KTLX'' = Some (Directory single_tilt_station)
   \<and> wf_station_dir single_tilt_station
   \<and> (0::int) \<le> 30
   \<and> nat 30 < length (product_timestamps single_tilt_station ''reflectivity'')
   \<and> length (product_timestamps single_tilt_station ''reflectivity'') = 35
   \<and> scan_directory single_tilt_station ''reflectivity''
        = Inr (map (\<lambda>k. (example_timestamp k, ''0.5'')) (rev [0..<35]))
   \<and> (\<exists>stations' idx' d'.
          cleanup_old_frames 30 (Some [(''KTLX'', Directory single_tilt_station)]) Map.empty
            = (Some stations', idx')
        \<and> map_of stations' ''KTLX'' = Some (Directory d')
        \<and> product_timestamps d' ''reflectivity'' = map example_timestamp [5..<35]
        \<and> idx' (''KTLX'', ''reflectivity'')
            = Some (map (\<lambda>k. (example_timestamp k, ''0.5'')) (rev [5..<35]))
        \<and> map_option length (idx' (''KTLX'', ''reflectivity'')) = Some 30)"
proof -
  have a1: "distinct (map fst [(''KTLX'', Directory single_tilt_station)])" by simp
  have a2: "map_of [(''KTLX'', Directory single_tilt_station)] ''KTLX''
              = Some (Directory single_tilt_station)" by simp
  have a3: "wf_station_dir single_tilt_station" by code_simp
  have a4: "(0::int) \<le> 30" by simp
  have a5: "nat 30 < length (product_timestamps single_tilt_station ''reflectivity'')"
    by (simp add: single_tilt_timestamps)
  have a5': "length (product_timestamps single_tilt_station ''reflectivity'') = 35"
    by (simp add: single_tilt_timestamps)
  note a6 = single_tilt_scan
  from retention_keeps_newest [OF a1 a2 a3 a4 a5 a6, of Map.empty]
  obtain stations' idx' d' where
    r1: "cleanup_old_frames 30 (Some [(''KTLX'', Directory single_tilt_station)]) Map.empty
           = (Some stations', idx')"
    and r2: "map_of stations' ''KTLX'' = Some (Directory d')"
    and r3: "product_timestamps d' ''reflectivity''
               = filter (\<lambda>t. t \<in> set (take (nat 30) (rev (sort
                   (product_timestamps single_tilt_station ''reflectivity'')))))
                   (product_timestamps single_tilt_station ''reflectivity'')"
    and r4: "idx' (''KTLX'', ''reflectivity'')
               = Some (filter (\<lambda>(t, stem). t \<in> set (take (nat 30) (rev (sort
                   (product_timestamps single_tilt_station ''reflectivity'')))))
                   (map (\<lambda>k. (example_timestamp k, ''0.5'')) (rev [0..<35])))"
    by (elim exE conjE)
  have r3': "product_timestamps d' ''reflectivity'' = map example_timestamp [5..<35]"
    using r3 by (simp only: single_tilt_timestamps single_tilt_kept_timestamps)
  have r4': "idx' (''KTLX'', ''reflectivity'')
               = Some (map (\<lambda>k. (example_timestamp k, ''0.5'')) (rev [5..<35]))"
    using r4 by (simp only: single_tilt_timestamps single_tilt_kept_index)
  have r5: "map_option length (idx' (''KTLX'', ''reflectivity'')) = Some 30"
    unfolding r4' by simp
  have "\<exists>stations' idx' d'.
          cleanup_old_frames 30 (Some [(''KTLX'', Directory single_tilt_station)]) Map.empty
            = (Some stations', idx')
        \<and> map_of stations' ''KTLX'' = Some (Directory d')
        \<and> product_timestamps d' ''reflectivity'' = map example_timestamp [5..<35]
        \<and> idx' (''KTLX'', ''reflectivity'')
            = Some (map (\<lambda>k. (example_timestamp k, ''0.5'')) (rev [5..<35]))
        \<and> map_option length (idx' (''KTLX'', ''reflectivity'')) = Some 30"
    using r1 r2 r3' r4' r5 by (intro exI conjI)
  with a1 a2 a3 a4 a5 a5' a6 show ?thesis by (intro conjI)
qed

text \<open>
  Claim C8 states that the rewritten index has exactly 30 entries whenever 35 timestamps
  are on disk. With two tilts stored per timestamp (\<open>0.5.RDA\<close> and \<open>1.5.RDA\<close>), the index
  rewritten by retention lists 60 entries for the 30 retained timestamps.
\<close>

theorem retention_index_lists_every_tilt:
  "length (product_timestamps multi_tilt_station ''reflectivity'') = 35
   \<and> map_option length
        (snd (cleanup_old_frames 30 (Some [(''KTLX'', Directory multi_tilt_station)]) Map.empty)
           (''KTLX'', ''reflectivity'')) = Some 60"
  by code_simp

end
